theory Spec2Isabelle
  imports Main "HOL-Library.Sublist" "HOL-Library.List_Lexorder"
begin

section \<open>Python strings and the library the engine calls\<close>

text \<open>
  A Python \<open>str\<close> is a sequence of Unicode code points: \<open>len\<close> counts them, \<open>lower\<close>,
  \<open>strip\<close> and the regular expressions classify them. A string is therefore a list of
  code points, and a literal of the source is written \<open>u ''...''\<close>. The substring test
  \<open>a in b\<close> is \<open>sublist a b\<close>.
\<close>

type_synonym ustr = "nat list"

abbreviation u :: "string \<Rightarrow> ustr" where
  "u s \<equiv> map of_char s"

text \<open>
  The engine calls into CPython and pandas for case mapping, whitespace, the character
  classes \<open>\d\<close> and \<open>\w\<close> of \<open>re\<close>, and for compiling a user-supplied pattern
  (\<open>Series.str.contains\<close> treats its argument as a regular expression). Their Unicode
  tables and the regex engine are not part of the repository; they are a parameter of
  every function of the model.
  \<^item> \<open>str_lower\<close>, \<open>str_upper\<close>: \<open>str.lower()\<close>, \<open>str.upper()\<close>;
  \<^item> \<open>is_space\<close>: the characters \<open>str.strip()\<close> removes;
  \<^item> \<open>re_digit\<close>, \<open>re_word\<close>: \<open>\d\<close> and \<open>\w\<close> on \<open>str\<close> patterns;
  \<^item> \<open>re_compile p\<close>: \<open>None\<close> when \<open>p\<close> is rejected with \<open>re.error\<close>, otherwise the
    test "\<open>re.search(p, s)\<close> finds a match".
\<close>

record pylib =
  str_lower :: "ustr \<Rightarrow> ustr"
  str_upper :: "ustr \<Rightarrow> ustr"
  is_space :: "nat \<Rightarrow> bool"
  re_digit :: "nat \<Rightarrow> bool"
  re_word :: "nat \<Rightarrow> bool"
  re_compile :: "ustr \<Rightarrow> (ustr \<Rightarrow> bool) option"

definition str_strip :: "pylib \<Rightarrow> ustr \<Rightarrow> ustr" where
  "str_strip L s = rev (dropWhile (is_space L) (rev (dropWhile (is_space L) s)))"

text \<open>
  The facts about CPython that the proofs rely on, and nothing more: \<open>lower\<close> leaves a
  string of ASCII characters without capitals unchanged, and a string of decimal digits
  too; printable ASCII characters other than the blank are not whitespace; on ASCII,
  \<open>\d\<close> is \<open>[0-9]\<close>; no decimal digit is whitespace.
\<close>

definition python_facts :: "pylib \<Rightarrow> bool" where
  "python_facts L \<longleftrightarrow>
     (\<forall>s. (\<forall>c\<in>set s. c < 128 \<and> \<not> (65 \<le> c \<and> c \<le> 90)) \<longrightarrow> str_lower L s = s) \<and>
     (\<forall>s. (\<forall>c\<in>set s. re_digit L c) \<longrightarrow> str_lower L s = s) \<and>
     (\<forall>c. 33 \<le> c \<and> c \<le> 126 \<longrightarrow> \<not> is_space L c) \<and>
     (\<forall>c. c < 128 \<longrightarrow> re_digit L c = (48 \<le> c \<and> c \<le> 57)) \<and>
     (\<forall>c. re_digit L c \<longrightarrow> \<not> is_space L c)"

text \<open>
  An excerpt of CPython's tables, for evaluating the model at concrete inputs: ASCII case
  mapping, the whitespace and word characters of ASCII and Latin-1's two blanks, the
  decimal digits of ASCII and the Arabic-Indic block (U+0660 to U+0669), and the regex
  compiler on patterns without metacharacters, where searching the pattern is searching
  a substring. A pattern with a metacharacter is outside the excerpt and is reported as
  rejected, which CPython does for \<open>abc(\<close> and does not do for \<open>abc.\<close>; likewise a
  decimal digit of another block (the fullwidth digits, say) is not in \<open>excerpt_digit\<close>.
  The excerpt is evaluated only at inputs inside its tables, and at \<open>abc(\<close>; the general
  theorems hold for every library \<open>L\<close>, under \<open>python_facts L\<close> where they need it.
\<close>

definition ascii_lower :: "ustr \<Rightarrow> ustr" where
  "ascii_lower s = map (\<lambda>c. if 65 \<le> c \<and> c \<le> 90 then c + 32 else c) s"

definition ascii_upper :: "ustr \<Rightarrow> ustr" where
  "ascii_upper s = map (\<lambda>c. if 97 \<le> c \<and> c \<le> 122 then c - 32 else c) s"

definition excerpt_space :: "nat \<Rightarrow> bool" where
  "excerpt_space c \<longleftrightarrow> (9 \<le> c \<and> c \<le> 13) \<or> (28 \<le> c \<and> c \<le> 32) \<or> c = 133 \<or> c = 160"

definition excerpt_digit :: "nat \<Rightarrow> bool" where
  "excerpt_digit c \<longleftrightarrow> (48 \<le> c \<and> c \<le> 57) \<or> (1632 \<le> c \<and> c \<le> 1641)"

definition excerpt_word :: "nat \<Rightarrow> bool" where
  "excerpt_word c \<longleftrightarrow>
     excerpt_digit c \<or> (65 \<le> c \<and> c \<le> 90) \<or> (97 \<le> c \<and> c \<le> 122) \<or> c = 95"

definition metachars :: "nat list" where
  "metachars = [46, 94, 36, 42, 43, 63, 123, 125, 91, 93, 92, 124, 40, 41]"

definition literal_compile :: "ustr \<Rightarrow> (ustr \<Rightarrow> bool) option" where
  "literal_compile p =
     (if list_ex (\<lambda>c. c \<in> set metachars) p then None else Some (\<lambda>s. sublist p s))"

definition cpython_excerpt :: pylib where
  "cpython_excerpt =
     \<lparr> str_lower = ascii_lower, str_upper = ascii_upper, is_space = excerpt_space,
       re_digit = excerpt_digit, re_word = excerpt_word, re_compile = literal_compile \<rparr>"

section \<open>Text normalizer\<close>

text \<open>
  \<open>clean_to_digits(val)\<close> looks at its argument through \<open>pd.isna(val)\<close> and \<open>str(val)\<close>
  only. A scalar is therefore either missing (\<open>NA\<close>: \<open>None\<close>, NaN, \<open>pd.NA\<close>) or a value
  given by its \<open>str()\<close>; a \<open>str\<close> is the value whose \<open>str()\<close> is itself.
  \<open>split('.')[0]\<close> is the text before the first full stop (code point 46) and
  \<open>re.sub(r'\D', '', s)\<close> keeps the characters that \<open>\d\<close> matches.
\<close>

datatype scalar = NA | Val ustr

definition clean_to_digits :: "pylib \<Rightarrow> scalar \<Rightarrow> ustr" where
  "clean_to_digits L val =
     (case val of
        NA \<Rightarrow> []
      | Val sv \<Rightarrow>
          if str_lower L sv = u ''nan'' \<or> str_strip L sv = [] then []
          else let s = takeWhile (\<lambda>c. c \<noteq> 46) sv
               in str_strip L (filter (re_digit L) s))"

section \<open>Intent classifier\<close>

datatype intent = CONFIRMATION | EXIT | NAME_QUERY | CODE_QUERY | CONVERSATIONAL | TECHNICAL

definition confirmation_words :: "ustr list" where
  "confirmation_words =
     [u ''yes'', u ''y'', u ''yep'', u ''ok'', u ''okay'', u ''show'', u ''show me'',
      u ''got it'', u ''correct'']"

definition exit_words :: "ustr list" where
  "exit_words = [u ''no'', u ''n'', u ''nope'', u ''stop'', u ''exit'', u ''cancel'']"

definition name_phrases :: "ustr list" where
  "name_phrases = [u ''setting name'', u ''name of'', u ''what is the name'']"

definition code_phrases :: "ustr list" where
  "code_phrases = [u ''access code for'', u ''code for'', u ''what is the code'']"

definition courtesy_words :: "ustr list" where
  "courtesy_words = [u ''hi'', u ''hello'', u ''hey'', u ''thanks'', u ''help'']"

definition detect_intent :: "pylib \<Rightarrow> ustr \<Rightarrow> intent" where
  "detect_intent L text =
     (let clean = str_strip L (str_lower L text) in
      if clean \<in> set confirmation_words then CONFIRMATION
      else if clean \<in> set exit_words then EXIT
      else if list_ex (\<lambda>phrase. sublist phrase clean) name_phrases then NAME_QUERY
      else if list_ex (\<lambda>phrase. sublist phrase clean) code_phrases then CODE_QUERY
      else if list_ex (\<lambda>word. sublist word clean) courtesy_words then CONVERSATIONAL
      else TECHNICAL)"

text \<open>
  \<open>format_clean_description\<close> splits on \<open>(\d+:)\<close>, a run of digits followed by a colon
  (code point 58), with the separators kept; since a colon is not a digit, the run is
  maximal. \<open>re_split L cur s\<close> scans \<open>s\<close> with \<open>cur\<close> the text since the last separator.
  The text before the first label is dropped by the loop, which starts at index 1.
\<close>

definition hd_opt :: "'a list \<Rightarrow> 'a option" where
  "hd_opt xs = (case xs of [] \<Rightarrow> None | x # _ \<Rightarrow> Some x)"

definition label_at :: "pylib \<Rightarrow> ustr \<Rightarrow> ustr option" where
  "label_at L s =
     (let ds = takeWhile (re_digit L) s; r = dropWhile (re_digit L) s
      in if ds \<noteq> [] \<and> hd_opt r = Some 58 then Some (ds @ [58]) else None)"

function re_split :: "pylib \<Rightarrow> ustr \<Rightarrow> ustr \<Rightarrow> ustr list" where
  "re_split L cur [] = [cur]"
| "re_split L cur (c # cs) =
     (case label_at L (c # cs) of
        Some lab \<Rightarrow> cur # lab # re_split L [] (drop (length lab - 1) cs)
      | None \<Rightarrow> re_split L (cur @ [c]) cs)"
  by pat_completeness auto
termination
  by (relation "measure (\<lambda>(L, cur, s). length s)") auto

fun str_join :: "ustr \<Rightarrow> ustr list \<Rightarrow> ustr" where
  "str_join sep [] = []"
| "str_join sep [x] = x"
| "str_join sep (x # y # ys) = x @ sep @ str_join sep (y # ys)"

fun label_values :: "pylib \<Rightarrow> ustr list \<Rightarrow> ustr list" where
  "label_values L (label # val # rest) =
     (label @ u '' '' @ str_strip L val) # label_values L rest"
| "label_values L [label] = [label @ u '' '']"
| "label_values L [] = []"

definition format_clean_description :: "pylib \<Rightarrow> ustr \<Rightarrow> ustr" where
  "format_clean_description L text0 =
     (let text = str_strip L text0; parts = re_split L [] text
      in if length parts \<le> 1 then text
         else str_join (u '' <br> '') (label_values L (tl parts)))"

section \<open>Record store, conversation, descriptors\<close>

text \<open>
  A row of the data frame after \<open>load_database\<close>: four strings. The global \<open>df\<close> is
  \<open>None\<close> or a frame; a frame with no rows is \<open>df.empty\<close>. A turn of the history is the
  dictionary \<open>{'role': ..., 'content': ...}\<close> that \<open>app.py\<close> builds. The resolver
  returns its descriptor as \<open>str(dict)\<close> with string values; the model returns the
  dictionary itself, as the list of its items in insertion order.
\<close>

record row =
  code_col :: ustr
  name_col :: ustr
  sub_code_col :: ustr
  description_col :: ustr

type_synonym dataframe = "row list option"

record turn =
  role :: ustr
  content :: ustr

datatype status = READY | DATA_MISSING | SHOW_PROCEDURE | NONE

datatype error = ReError | IndexError | ValueError | AttributeError | KeyError

type_synonym descriptor = "(ustr \<times> ustr) list"

type_synonym answer = "bool \<times> ustr \<times> descriptor \<times> status"

section \<open>Answer resolver\<close>

text \<open>The mojibake of the light-bulb emoji, as the source file spells it (4 code points).\<close>

definition bulb :: ustr where
  "bulb = [240, 376, 8217, 161]"

definition nl :: ustr where
  "nl = [10]"

text \<open>
  \<open>re.search(r'\(Code: (\d+)\)', last_msg)\<close>: the leftmost position where \<open>(Code: \<close>,
  a non-empty run of digits and \<open>)\<close> (code point 41) follow; the run is maximal since
  \<open>)\<close> is not a digit. The result is group 1.
\<close>

definition code_tag_at :: "pylib \<Rightarrow> ustr \<Rightarrow> ustr option" where
  "code_tag_at L s =
     (if prefix (u ''(Code: '') s then
        (let rest = drop 7 s; ds = takeWhile (re_digit L) rest; r = dropWhile (re_digit L) rest
         in if ds \<noteq> [] \<and> hd_opt r = Some 41 then Some ds else None)
      else None)"

fun re_search_code :: "pylib \<Rightarrow> ustr \<Rightarrow> ustr option" where
  "re_search_code L [] = None"
| "re_search_code L (c # cs) =
     (case code_tag_at L (c # cs) of Some d \<Rightarrow> Some d | None \<Rightarrow> re_search_code L cs)"

text \<open>
  \<open>re.sub\<close> of the boilerplate alternation by the empty string: at each position the
  first alternative that matches is removed and the scan goes on after it.
\<close>

definition boilerplate :: "ustr list" where
  "boilerplate =
     [u ''what is the'', u ''access code for'', u ''code for'', u ''setting name of'',
      u ''name of code'', u ''the code for'', u ''setting name for'']"

function re_sub_boilerplate :: "ustr \<Rightarrow> ustr" where
  "re_sub_boilerplate [] = []"
| "re_sub_boilerplate (c # cs) =
     (case find (\<lambda>p. prefix p (c # cs)) boilerplate of
        Some p \<Rightarrow> re_sub_boilerplate (drop (length p - 1) cs)
      | None \<Rightarrow> c # re_sub_boilerplate cs)"
  by pat_completeness auto
termination
  by (relation "measure length") auto

text \<open>
  \<open>re.findall(r'\b\d{4,5}\b', search_term)\<close>. \<open>\b\<close> holds between two positions when
  exactly one side is a word character (the ends of the string count as non-word);
  \<open>\d{4,5}\<close> is greedy: five digits are tried before four. \<open>prev\<close> is the character
  before the scanned suffix.
\<close>

definition word_boundary :: "pylib \<Rightarrow> nat option \<Rightarrow> nat option \<Rightarrow> bool" where
  "word_boundary L p n \<longleftrightarrow>
     (case p of None \<Rightarrow> False | Some c \<Rightarrow> re_word L c) \<noteq>
     (case n of None \<Rightarrow> False | Some c \<Rightarrow> re_word L c)"

definition digits_then_boundary :: "pylib \<Rightarrow> nat \<Rightarrow> ustr \<Rightarrow> bool" where
  "digits_then_boundary L k s \<longleftrightarrow>
     k \<le> length s \<and> list_all (re_digit L) (take k s) \<and>
     word_boundary L (Some (last (take k s))) (hd_opt (drop k s))"

definition token_at :: "pylib \<Rightarrow> nat option \<Rightarrow> ustr \<Rightarrow> ustr option" where
  "token_at L prev s =
     (if word_boundary L prev (hd_opt s) then
        (if digits_then_boundary L 5 s then Some (take 5 s)
         else if digits_then_boundary L 4 s then Some (take 4 s)
         else None)
      else None)"

function re_findall_codes :: "pylib \<Rightarrow> nat option \<Rightarrow> ustr \<Rightarrow> ustr list" where
  "re_findall_codes L prev [] = []"
| "re_findall_codes L prev (c # cs) =
     (case token_at L prev (c # cs) of
        Some tok \<Rightarrow> tok # re_findall_codes L (Some (last tok)) (drop (length tok - 1) cs)
      | None \<Rightarrow> re_findall_codes L (Some c) cs)"
  by pat_completeness auto
termination
  by (relation "measure (\<lambda>(L, prev, s). length s)") auto

text \<open>
  pandas: \<open>Series.unique()\<close> keeps the first occurrence of each value, in order;
  \<open>drop_duplicates(subset=..., keep='first')\<close> keeps the first row of each key.
\<close>

definition unique :: "'a list \<Rightarrow> 'a list" where
  "unique xs = rev (remdups (rev xs))"

fun drop_duplicates :: "('a \<Rightarrow> 'k) \<Rightarrow> 'k list \<Rightarrow> 'a list \<Rightarrow> 'a list" where
  "drop_duplicates key seen [] = []"
| "drop_duplicates key seen (r # rs) =
     (if key r \<in> set seen then drop_duplicates key seen rs
      else r # drop_duplicates key (key r # seen) rs)"

definition sub_label :: "ustr \<Rightarrow> ustr" where
  "sub_label sub = (if sub = u ''-'' then u ''NA'' else sub)"

definition sub_table_lines :: "pylib \<Rightarrow> row list \<Rightarrow> ustr list" where
  "sub_table_lines L rows =
     [u ''| Sub-Code | Description / Values |'', u ''| :--- | :--- |''] @
     map (\<lambda>r. u ''| '' @ sub_label (sub_code_col r) @ u '' | '' @
               format_clean_description L (description_col r) @ u '' |'') rows"

text \<open>
  The confirmation branch (section 2 of \<open>find_best_answer\<close>). It reads \<open>history[-1]\<close>,
  the last turn whatever its role; \<open>app.py\<close> stores turns in (user, assistant) pairs, so
  in the histories it passes this is the last assistant turn.
\<close>

definition confirmation_branch :: "pylib \<Rightarrow> row list \<Rightarrow> turn list \<Rightarrow> answer" where
  "confirmation_branch L data history =
     (if history \<noteq> [] then
        (let last_msg = content (last history) in
         case (if sublist (u ''know the sub code'') last_msg
               then re_search_code L last_msg else None) of
           Some code \<Rightarrow>
             (let rows = filter (\<lambda>r. code_col r = code) data
              in (True, [],
                  [(u ''mode'', u ''SUB_TABLE''),
                   (u ''table'', str_join nl (sub_table_lines L rows)),
                   (u ''code'', code)], READY))
         | None \<Rightarrow>
             if sublist (u ''how to set the 08 code'') last_msg \<or> sublist bulb last_msg
             then (True, [], [], SHOW_PROCEDURE)
             else (False, [], [], NONE))
      else (False, [], [], NONE))"

text \<open>\<open>.iloc[0]\<close> raises IndexError on an empty selection.\<close>

definition iloc0 :: "'a list \<Rightarrow> error + 'a" where
  "iloc0 xs = (case xs of [] \<Rightarrow> Inl IndexError | x # _ \<Rightarrow> Inr x)"

definition list_table :: "row list \<Rightarrow> ustr" where
  "list_table rows =
     (let match_list = drop_duplicates (\<lambda>r. (code_col r, name_col r)) [] rows
      in u ''| Access Code | Setting Name |'' @ nl @ u ''| :--- | :--- |'' @ nl @
         concat (map (\<lambda>r. u ''| '' @ code_col r @ u '' | '' @ name_col r @ u '' |'' @ nl)
                     match_list))"

definition compare_cell :: "pylib \<Rightarrow> row list \<Rightarrow> ustr \<Rightarrow> ustr \<Rightarrow> ustr" where
  "compare_cell L rows c sub =
     (case map description_col
             (filter (\<lambda>r. code_col r = c \<and> sub_code_col r = sub) rows) of
        [] \<Rightarrow> u ''-''
      | v # _ \<Rightarrow> format_clean_description L v)"

definition compare_lines ::
  "pylib \<Rightarrow> row list \<Rightarrow> ustr \<Rightarrow> ustr \<Rightarrow> ustr \<Rightarrow> ustr \<Rightarrow> ustr list" where
  "compare_lines L rows c1 c2 n1 n2 =
     [u ''| Sub | '' @ c1 @ u '' ('' @ n1 @ u '') | '' @ c2 @ u '' ('' @ n2 @ u '') |'',
      u ''| :--- | :--- | :--- |''] @
     map (\<lambda>sub. u ''| '' @ sub_label sub @ u '' | '' @ compare_cell L rows c1 sub @
                 u '' | '' @ compare_cell L rows c2 sub @ u '' |'')
         (sort (unique (map sub_code_col rows)))"

text \<open>Lines 143 to 177: from the filtered rows to \<open>NOT_FOUND\<close>, \<open>LIST\<close>, \<open>COMPARE\<close> or \<open>SINGLE\<close>.\<close>

definition process_rows :: "pylib \<Rightarrow> ustr \<Rightarrow> row list \<Rightarrow> error + answer" where
  "process_rows L search_term rows =
     (if rows = [] then
        Inr (True, [], [(u ''mode'', u ''NOT_FOUND''), (u ''query'', search_term)], DATA_MISSING)
      else
        (let unique_codes = sort (unique (map code_col rows)) in
         if length unique_codes > 2 then
           Inr (True, [],
                [(u ''mode'', u ''LIST''), (u ''query'', str_upper L search_term),
                 (u ''content'', list_table rows)], READY)
         else if length unique_codes = 2 then
           (let c1 = unique_codes ! 0; c2 = unique_codes ! 1 in
            case iloc0 (filter (\<lambda>r. code_col r = c1) rows) of
              Inl e \<Rightarrow> Inl e
            | Inr r1 \<Rightarrow>
                (case iloc0 (filter (\<lambda>r. code_col r = c2) rows) of
                   Inl e \<Rightarrow> Inl e
                 | Inr r2 \<Rightarrow>
                     Inr (True, [],
                          [(u ''mode'', u ''COMPARE''), (u ''query'', str_upper L search_term),
                           (u ''table'',
                            str_join nl (compare_lines L rows c1 c2 (name_col r1) (name_col r2)))],
                          READY)))
         else
           (let rows1 = drop_duplicates sub_code_col [] rows in
            case iloc0 rows1 of
              Inl e \<Rightarrow> Inl e
            | Inr r0 \<Rightarrow>
                Inr (True, [],
                     [(u ''mode'', u ''SINGLE''), (u ''name'', name_col r0),
                      (u ''code'', code_col r0),
                      (u ''table'', str_join nl (sub_table_lines L rows1))], READY))))"

text \<open>
  The search by name (lines 135 to 137): exact match on the lowered name, and when that
  finds nothing, \<open>str.contains(search_term)\<close>, which compiles the search term as a
  regular expression and raises \<open>re.error\<close> when it is not one.
\<close>

definition name_rows :: "pylib \<Rightarrow> row list \<Rightarrow> ustr \<Rightarrow> error + row list" where
  "name_rows L data search_term =
     (let rows = filter (\<lambda>r. str_lower L (name_col r) = search_term) data in
      if rows = [] then
        (case re_compile L search_term of
           None \<Rightarrow> Inl ReError
         | Some found \<Rightarrow> Inr (filter (\<lambda>r. found (str_lower L (name_col r))) data))
      else Inr rows)"

definition name_only :: "ustr \<Rightarrow> ustr \<Rightarrow> answer" where
  "name_only nm cd =
     (True, [], [(u ''mode'', u ''NAME_ONLY''), (u ''name'', nm), (u ''code'', cd)], READY)"

text \<open>Section 3 of \<open>find_best_answer\<close>: the technical search.\<close>

definition technical_search :: "pylib \<Rightarrow> row list \<Rightarrow> intent \<Rightarrow> ustr \<Rightarrow> error + answer" where
  "technical_search L data intent user_text =
     (let search_term = str_strip L (re_sub_boilerplate user_text) in
      if length search_term < 2 \<or> search_term = u ''ok'' then Inr (False, [], [], NONE)
      else
        (case re_findall_codes L None search_term of
           code0 # _ \<Rightarrow>
             (let rows = filter (\<lambda>r. code_col r = code0) data in
              case rows of
                r0 # _ \<Rightarrow>
                  if intent = NAME_QUERY then Inr (name_only (name_col r0) code0)
                  else process_rows L search_term rows
              | [] \<Rightarrow> process_rows L search_term rows)
         | [] \<Rightarrow>
             (case name_rows L data search_term of
                Inl e \<Rightarrow> Inl e
              | Inr rows \<Rightarrow>
                  (case rows of
                     r0 # _ \<Rightarrow>
                       if intent = CODE_QUERY then Inr (name_only (name_col r0) (code_col r0))
                       else process_rows L search_term rows
                   | [] \<Rightarrow> process_rows L search_term rows))))"

definition find_best_answer ::
  "pylib \<Rightarrow> dataframe \<Rightarrow> ustr \<Rightarrow> turn list \<Rightarrow> error + answer" where
  "find_best_answer L df user_prompt history =
     (case df of
        None \<Rightarrow> Inr (True, [], [(u ''mode'', u ''NOT_FOUND'')], DATA_MISSING)
      | Some data \<Rightarrow>
          if data = [] then Inr (True, [], [(u ''mode'', u ''NOT_FOUND'')], DATA_MISSING)
          else
            (let user_text = str_strip L (str_lower L user_prompt);
                 intent = detect_intent L user_text
             in if intent = EXIT then Inr (True, [], [(u ''mode'', u ''EXIT'')], READY)
                else if intent = CONVERSATIONAL then Inr (False, [], [], NONE)
                else if intent = CONFIRMATION then Inr (confirmation_branch L data history)
                else technical_search L data intent user_text))"

section \<open>Response renderer\<close>

text \<open>
  \<open>generate_ai_response\<close> receives the descriptor as a string and decodes it with
  \<open>ast.literal_eval\<close>. The model takes what the decoding gives: a failure
  (\<open>Undecodable\<close>), a literal that is not a dictionary and so has no \<open>get\<close> (\<open>NonDict\<close>),
  or a dictionary, given by its items under string keys. A value of the dictionary is a
  \<open>str\<close>, or another object given by the text that formatting it produces. The
  parameters \<open>history\<close>, \<open>search_context\<close> and \<open>intent\<close> are never read and are left
  out. Every path yields one chunk; the result is the list of chunks.
\<close>

datatype pyval = PStr ustr | PObj ustr

datatype literal = Undecodable | NonDict | Dict "(ustr \<times> pyval) list"

definition fmt :: "pyval \<Rightarrow> ustr" where
  "fmt v = (case v of PStr s \<Rightarrow> s | PObj t \<Rightarrow> t)"

definition item :: "(ustr \<times> pyval) list \<Rightarrow> ustr \<Rightarrow> error + ustr" where
  "item info k = (case map_of info k of None \<Rightarrow> Inl KeyError | Some v \<Rightarrow> Inr (fmt v))"

definition get_text :: "(ustr \<times> pyval) list \<Rightarrow> ustr \<Rightarrow> ustr" where
  "get_text info k = (case map_of info k of None \<Rightarrow> u ''None'' | Some v \<Rightarrow> fmt v)"

text \<open>What \<open>ast.literal_eval\<close> gives back for the \<open>str()\<close> of a resolver dictionary.\<close>

definition decoded :: "descriptor \<Rightarrow> literal" where
  "decoded d = Dict (map (\<lambda>(k, v). (k, PStr v)) d)"

definition data_missing_text :: ustr where
  "data_missing_text =
     [240, 376, 8221] @ u '' I couldn'' @ [39] @
     u ''t find any technical data for that. Please check the spelling or try the Access Code.''"

definition procedure_text :: ustr where
  "procedure_text =
     u ''### '' @ [240, 376, 8250, 160, 239, 184] @ u '' 08 Service Mode Procedure'' @ nl @ nl @
     u ''1. Go to **User Function** -> **Setting Icon**.'' @ nl @
     u ''2. Enter **Password** -> Select **08 Code**.'' @ nl @
     u ''3. Enter the **08 Code** -> Press **Enter**.'' @ nl @
     u ''4. Enter **Sub Code** -> **Enter**.'' @ nl @
     u ''5. Enter **Value** -> **Enter** to save.''"

definition sub_code_offer :: "ustr \<Rightarrow> ustr" where
  "sub_code_offer cd =
     nl @ nl @ u '' '' @ bulb @ u '' Do you want to know the sub code for that? (Code: '' @
     cd @ u '')''"

definition render_name_only :: "intent \<Rightarrow> ustr \<Rightarrow> ustr \<Rightarrow> ustr" where
  "render_name_only current_intent cd nm =
     (if current_intent = NAME_QUERY
      then u ''The setting name for **'' @ cd @ u ''** is **'' @ nm @ u ''**.'' @
           sub_code_offer cd
      else u ''The Access Code for **'' @ nm @ u ''** is **'' @ cd @ u ''**.'' @
           sub_code_offer cd)"

definition render_sub_table :: "ustr \<Rightarrow> ustr \<Rightarrow> ustr" where
  "render_sub_table cd table =
     u ''Here are the sub codes for code **'' @ cd @ u ''**:'' @ nl @ nl @ table @ nl @ nl @
     u '' '' @ bulb @ u '' Do you want to know how to set the 08 code?''"

definition render_single :: "ustr \<Rightarrow> ustr \<Rightarrow> ustr \<Rightarrow> ustr" where
  "render_single nm cd table =
     u ''Technical Record for **'' @ nm @ u ''** (Code: '' @ cd @ u '')'' @ nl @ nl @
     table @ nl @ nl @ bulb @ u '' **Suggestion:** Type **Yes** to see the 08 procedure.''"

definition render_list :: "ustr \<Rightarrow> ustr \<Rightarrow> ustr" where
  "render_list query tbl =
     u ''I found several entries for **'' @ query @ u ''**:'' @ nl @ nl @ tbl @ nl @ nl @
     bulb @ u '' Please type the specific **Access Code** you need.''"

definition render_compare :: "ustr \<Rightarrow> ustr \<Rightarrow> ustr" where
  "render_compare query table =
     u ''### '' @ [240, 376, 8220, 352] @ u '' Side-by-Side Comparison: '' @ query @ nl @ nl @
     table @ nl @ nl @ bulb @ u '' **Tip:** Use these to check state differences.''"

text \<open>The body of the \<open>try\<close>: an exception is the \<open>Inl\<close> result.\<close>

definition render_body :: "pylib \<Rightarrow> ustr \<Rightarrow> literal \<Rightarrow> error + ustr" where
  "render_body L user_prompt data_str =
     (case data_str of
        Undecodable \<Rightarrow> Inl ValueError
      | NonDict \<Rightarrow> Inl AttributeError
      | Dict info \<Rightarrow>
          (let mode = map_of info (u ''mode'') in
           if mode = Some (PStr (u ''EXIT'')) then
             Inr (u ''Understood. Let me know if you need help with other codes!'')
           else if mode = Some (PStr (u ''NAME_ONLY'')) then
             (case (item info (u ''code''), item info (u ''name'')) of
                (Inr cd, Inr nm) \<Rightarrow> Inr (render_name_only (detect_intent L user_prompt) cd nm)
              | _ \<Rightarrow> Inl KeyError)
           else if mode = Some (PStr (u ''SUB_TABLE'')) then
             (case (item info (u ''code''), item info (u ''table'')) of
                (Inr cd, Inr table) \<Rightarrow> Inr (render_sub_table cd table)
              | _ \<Rightarrow> Inl KeyError)
           else if mode = Some (PStr (u ''SINGLE'')) then
             (case (item info (u ''name''), item info (u ''code''), item info (u ''table'')) of
                (Inr nm, Inr cd, Inr table) \<Rightarrow> Inr (render_single nm cd table)
              | _ \<Rightarrow> Inl KeyError)
           else if mode = Some (PStr (u ''LIST'')) then
             (case item info (u ''content'') of
                Inr tbl \<Rightarrow> Inr (render_list (get_text info (u ''query'')) tbl)
              | Inl e \<Rightarrow> Inl e)
           else if mode = Some (PStr (u ''COMPARE'')) then
             (case item info (u ''table'') of
                Inr table \<Rightarrow> Inr (render_compare (get_text info (u ''query'')) table)
              | Inl e \<Rightarrow> Inl e)
           else Inr (u ''Hello! I am your Technical Assistant. How can I help you today?'')))"

definition generate_ai_response :: "pylib \<Rightarrow> ustr \<Rightarrow> literal \<Rightarrow> status \<Rightarrow> ustr list" where
  "generate_ai_response L user_prompt data_str status =
     (if status = DATA_MISSING then [data_missing_text]
      else if status = SHOW_PROCEDURE then [procedure_text]
      else (case render_body L user_prompt data_str of
              Inr chunk \<Rightarrow> [chunk]
            | Inl e \<Rightarrow> [u ''Hello! How can I help you today?'']))"

section \<open>Predicates used to state the properties\<close>

text \<open>The strings that match \<open>^[0-9]*$\<close>, and the scalars whose text is ASCII.\<close>

definition ascii_digits :: "ustr \<Rightarrow> bool" where
  "ascii_digits s = list_all (\<lambda>c. 48 \<le> c \<and> c \<le> 57) s"

definition ascii_only :: "scalar \<Rightarrow> bool" where
  "ascii_only v = (case v of NA \<Rightarrow> True | Val sv \<Rightarrow> list_all (\<lambda>c. c < 128) sv)"

text \<open>
  A decoded descriptor that the renderer can use: a dictionary whose \<open>mode\<close> is one of
  the six tags it renders, with the keys that tag's template indexes.
\<close>

definition tagged_result :: "literal \<Rightarrow> bool" where
  "tagged_result d =
     (case d of
        Dict info \<Rightarrow>
          (let mode = map_of info (u ''mode''); has = (\<lambda>k. map_of info k \<noteq> None) in
             mode = Some (PStr (u ''EXIT'')) \<or>
             mode = Some (PStr (u ''NAME_ONLY'')) \<and> has (u ''code'') \<and> has (u ''name'') \<or>
             mode = Some (PStr (u ''SUB_TABLE'')) \<and> has (u ''code'') \<and> has (u ''table'') \<or>
             mode = Some (PStr (u ''SINGLE'')) \<and> has (u ''name'') \<and> has (u ''code'') \<and>
               has (u ''table'') \<or>
             mode = Some (PStr (u ''LIST'')) \<and> has (u ''content'') \<or>
             mode = Some (PStr (u ''COMPARE'')) \<and> has (u ''table''))
      | _ \<Rightarrow> False)"

definition greetings :: "ustr list" where
  "greetings = [u ''Hello! How can I help you today?'',
                u ''Hello! I am your Technical Assistant. How can I help you today?'']"

text \<open>
  For the search branch: the rows that lines 128 to 137 select (by the first 4-to-5-digit
  token, or else by name), whether lines 131 and 139 return \<open>NAME_ONLY\<close> early, the
  number of distinct codes among rows, and the tag and status of an answer.
\<close>

definition filtered_rows :: "pylib \<Rightarrow> row list \<Rightarrow> ustr \<Rightarrow> error + row list" where
  "filtered_rows L data search_term =
     (case re_findall_codes L None search_term of
        code0 # _ \<Rightarrow> Inr (filter (\<lambda>r. code_col r = code0) data)
      | [] \<Rightarrow> name_rows L data search_term)"

definition short_circuit :: "pylib \<Rightarrow> intent \<Rightarrow> ustr \<Rightarrow> row list \<Rightarrow> bool" where
  "short_circuit L intent search_term rows \<longleftrightarrow>
     rows \<noteq> [] \<and>
     (if re_findall_codes L None search_term \<noteq> [] then intent = NAME_QUERY
      else intent = CODE_QUERY)"

definition distinct_codes :: "row list \<Rightarrow> nat" where
  "distinct_codes rows = length (remdups (map code_col rows))"

definition mode_of :: "answer \<Rightarrow> ustr option" where
  "mode_of a = (case a of (_, _, d, _) \<Rightarrow> map_of d (u ''mode''))"

definition status_of :: "answer \<Rightarrow> status" where
  "status_of a = (case a of (_, _, _, st) \<Rightarrow> st)"

text \<open>One line of the LIST table for a (code, name) pair, and the table's two header lines.\<close>

definition pair_line :: "ustr \<times> ustr \<Rightarrow> ustr" where
  "pair_line p = u ''| '' @ fst p @ u '' | '' @ snd p @ u '' |'' @ nl"

definition list_header :: ustr where
  "list_header = u ''| Access Code | Setting Name |'' @ nl @ u ''| :--- | :--- |'' @ nl"

text \<open>The text of the sub-code offer before its \<open>(Code: ...)\<close> tag.\<close>

definition offer_lead :: ustr where
  "offer_lead = nl @ nl @ u '' '' @ bulb @ u '' Do you want to know the sub code for that? ''"

text \<open>Two small record stores for the examples.\<close>

definition demo_store :: "row list" where
  "demo_store =
     [\<lparr>code_col = u ''3000'', name_col = u ''Abc one'', sub_code_col = u ''-'',
       description_col = u ''0: Off 1: On''\<rparr>,
      \<lparr>code_col = u ''1000'', name_col = u ''Abc two'', sub_code_col = u ''1'',
       description_col = u ''No data''\<rparr>,
      \<lparr>code_col = u ''2000'', name_col = u ''abc three'', sub_code_col = u ''2'',
       description_col = u ''10:ten  20: twenty''\<rparr>]"

definition protocol_store :: "row list" where
  "protocol_store =
     [\<lparr>code_col = u ''621'', name_col = u ''Network Protocol'', sub_code_col = u ''-'',
       description_col = u ''1:TCP 2:UDP''\<rparr>,
      \<lparr>code_col = u ''999'', name_col = u ''Tray (Code: 999)'', sub_code_col = u ''3'',
       description_col = u ''No data''\<rparr>]"

text \<open>
  A resolver dictionary none of whose values contains the sub-code offer marker, and a
  store with a setting whose name contains it.
\<close>

definition offer_free :: "descriptor \<Rightarrow> bool" where
  "offer_free d = list_all (\<lambda>(k, v). \<not> sublist (u ''know the sub code'') v) d"

definition offer_store :: "row list" where
  "offer_store =
     [\<lparr>code_col = u ''1234'', name_col = u ''Need to know the sub code'', sub_code_col = u ''7'',
       description_col = u ''0: Off 1: On''\<rparr>]"

section \<open>Properties of the library excerpt and of stripping\<close>

lemma ascii_lower_fixed:
  "\<forall>c\<in>set s. \<not> (65 \<le> c \<and> c \<le> 90) \<Longrightarrow> ascii_lower s = s"
  unfolding ascii_lower_def by (induction s) auto

lemma excerpt_digit_caseless: "excerpt_digit c \<Longrightarrow> \<not> (65 \<le> c \<and> c \<le> 90)"
  by (auto simp: excerpt_digit_def)

lemma cpython_excerpt_facts: "python_facts cpython_excerpt"
  unfolding python_facts_def cpython_excerpt_def
  by (auto simp: ascii_lower_fixed excerpt_digit_caseless excerpt_space_def excerpt_digit_def)

lemma str_strip_Nil [simp]: "str_strip L [] = []"
  by (simp add: str_strip_def)

lemma str_strip_fixed:
  assumes "s \<noteq> []" "\<not> is_space L (hd s)" "\<not> is_space L (last s)"
  shows "str_strip L s = s"
proof -
  from assms have a: "dropWhile (is_space L) s = s"
    by (cases s) auto
  from assms have "rev s \<noteq> []" "\<not> is_space L (hd (rev s))"
    by (auto simp: hd_rev)
  then have "dropWhile (is_space L) (rev s) = rev s"
    by (cases "rev s") auto
  with a show ?thesis by (simp add: str_strip_def)
qed

lemma str_strip_no_space:
  "\<forall>c\<in>set s. \<not> is_space L c \<Longrightarrow> str_strip L s = s"
  by (cases "s = []") (auto intro: str_strip_fixed)

section \<open>Text normalizer: digits\<close>

lemma set_str_strip: "set (str_strip L s) \<subseteq> set s"
proof -
  have "set (str_strip L s) = set (dropWhile (is_space L) (rev (dropWhile (is_space L) s)))"
    by (simp add: str_strip_def)
  also have "\<dots> \<subseteq> set (rev (dropWhile (is_space L) s))"
    by (rule set_dropWhileD[THEN subsetI]) 
  also have "\<dots> \<subseteq> set s"
    by (auto dest: set_dropWhileD)
  finally show ?thesis .
qed

lemma digits_fixed:
  assumes pf: "python_facts L" and d: "\<forall>c\<in>set r. re_digit L c"
  shows "clean_to_digits L (Val r) = r"
proof (cases "r = []")
  case True
  then show ?thesis by (simp add: clean_to_digits_def)
next
  case False
  from pf d have low: "str_lower L r = r"
    by (simp add: python_facts_def)
  from pf d have nosp: "\<forall>c\<in>set r. \<not> is_space L c"
    by (simp add: python_facts_def)
  then have st: "str_strip L r = r"
    by (rule str_strip_no_space)
  from pf have "\<not> re_digit L 110" "\<not> re_digit L 46"
    by (simp_all add: python_facts_def)
  with d have "110 \<notin> set r" and dot: "46 \<notin> set r"
    by auto
  then have nan: "r \<noteq> u ''nan''"
    by auto
  from dot have tw: "takeWhile (\<lambda>c. c \<noteq> 46) r = r"
    by (auto simp: takeWhile_eq_all_conv)
  from d have fl: "filter (re_digit L) r = r"
    by (simp add: filter_id_conv)
  from False low st nan
  have "clean_to_digits L (Val r) = str_strip L (filter (re_digit L) (takeWhile (\<lambda>c. c \<noteq> 46) r))"
    by (simp add: clean_to_digits_def)
  also have "\<dots> = r"
    by (simp only: tw fl st)
  finally show ?thesis .
qed

lemma clean_to_digits_digits:
  assumes pf: "python_facts L"
  shows "\<forall>c\<in>set (clean_to_digits L v). re_digit L c"
proof (cases v)
  case NA
  then show ?thesis by (simp add: clean_to_digits_def)
next
  case (Val sv)
  have "set (str_strip L (filter (re_digit L) (takeWhile (\<lambda>c. c \<noteq> 46) sv)))
          \<subseteq> set (filter (re_digit L) (takeWhile (\<lambda>c. c \<noteq> 46) sv))"
    by (rule set_str_strip)
  then show ?thesis using Val
    by (auto simp: clean_to_digits_def Let_def)
qed

lemma clean_to_digits_subset:
  "set (clean_to_digits L (Val sv)) \<subseteq> set sv"
proof -
  have "set (str_strip L (filter (re_digit L) (takeWhile (\<lambda>c. c \<noteq> 46) sv)))
          \<subseteq> set (filter (re_digit L) (takeWhile (\<lambda>c. c \<noteq> 46) sv))"
    by (rule set_str_strip)
  then show ?thesis
    by (auto simp: clean_to_digits_def Let_def dest: set_takeWhileD)
qed

text \<open>
  C8, as amended. \<open>clean_to_digits\<close> is idempotent: cleaning its own result changes
  nothing, for every scalar. Every character of the result is a decimal digit in the sense
  of \<open>\d\<close>, which on \<open>str\<close> is the Unicode class of decimal digits; when the text of the
  value is ASCII, the result matches \<open>^[0-9]*$\<close>.
\<close>

theorem clean_to_digits_idempotent:
  assumes "python_facts L"
  shows "clean_to_digits L (Val (clean_to_digits L v)) = clean_to_digits L v \<and>
         list_all (re_digit L) (clean_to_digits L v) \<and>
         (ascii_only v \<longrightarrow> ascii_digits (clean_to_digits L v))"
proof -
  from assms have d: "\<forall>c\<in>set (clean_to_digits L v). re_digit L c"
    by (rule clean_to_digits_digits)
  with assms have i: "clean_to_digits L (Val (clean_to_digits L v)) = clean_to_digits L v"
    by (rule digits_fixed)
  have "ascii_digits (clean_to_digits L v)" if a: "ascii_only v"
  proof (cases v)
    case NA
    then show ?thesis by (simp add: clean_to_digits_def ascii_digits_def)
  next
    case (Val sv)
    have "48 \<le> c \<and> c \<le> 57" if c: "c \<in> set (clean_to_digits L v)" for c
    proof -
      from c Val a clean_to_digits_subset[of L sv] have "c < 128"
        by (auto simp: ascii_only_def list_all_iff)
      moreover from c d have "re_digit L c" by simp
      ultimately show ?thesis
        using assms by (simp add: python_facts_def)
    qed
    then show ?thesis by (simp add: ascii_digits_def list_all_iff)
  qed
  with d i show ?thesis by (simp add: list_all_iff)
qed

theorem clean_to_digits_idempotent_witness:
  "python_facts cpython_excerpt \<and> ascii_only (Val (u ''621.0'')) \<and>
   clean_to_digits cpython_excerpt (Val (u ''621.0'')) = u ''621'' \<and>
   clean_to_digits cpython_excerpt (Val (clean_to_digits cpython_excerpt (Val (u ''621.0''))))
     = u ''621'' \<and>
   ascii_digits (clean_to_digits cpython_excerpt (Val (u ''621.0'')))"
proof -
  have e: "clean_to_digits cpython_excerpt (Val (u ''621.0'')) = u ''621''"
    by (simp add: clean_to_digits_def cpython_excerpt_def ascii_lower_def str_strip_def
        excerpt_digit_def excerpt_space_def)
  have a: "ascii_only (Val (u ''621.0''))"
    by (simp add: ascii_only_def)
  from clean_to_digits_idempotent [OF cpython_excerpt_facts, of "Val (u ''621.0'')"] e a
  show ?thesis
    by (simp add: cpython_excerpt_facts)
qed

text \<open>
  C8 as stated fails on its second half: the text of the two Arabic-Indic digits
  U+0663 U+0661 is kept as it is by \<open>re.sub(r'\D', '', s)\<close>, and does not match
  \<open>^[0-9]*$\<close>.
\<close>

theorem clean_to_digits_ascii_counterexample:
  "clean_to_digits cpython_excerpt (Val [1635, 1633]) = [1635, 1633] \<and>
   \<not> ascii_digits (clean_to_digits cpython_excerpt (Val [1635, 1633]))"
  by (simp add: clean_to_digits_def cpython_excerpt_def ascii_lower_def str_strip_def
      excerpt_digit_def excerpt_space_def ascii_digits_def)

section \<open>Intent classifier: priority order\<close>

text \<open>
  C5. \<open>detect_intent\<close> is a function of the text: it returns one of the six intents, and
  each intent is returned exactly when its rule matches the lowered, trimmed text and no
  rule before it does, in the order confirmation, exit, name query, code query,
  conversational, technical. A text that is \<open>ok\<close> after lowering and trimming is a
  CONFIRMATION.
\<close>

theorem detect_intent_priority:
  "(let clean = str_strip L (str_lower L text) in
     detect_intent L text \<in> {CONFIRMATION, EXIT, NAME_QUERY, CODE_QUERY, CONVERSATIONAL, TECHNICAL} \<and>
     (detect_intent L text = CONFIRMATION \<longleftrightarrow> clean \<in> set confirmation_words) \<and>
     (detect_intent L text = EXIT \<longleftrightarrow>
        clean \<notin> set confirmation_words \<and> clean \<in> set exit_words) \<and>
     (detect_intent L text = NAME_QUERY \<longleftrightarrow>
        clean \<notin> set confirmation_words \<and> clean \<notin> set exit_words \<and>
        (\<exists>p\<in>set name_phrases. sublist p clean)) \<and>
     (detect_intent L text = CODE_QUERY \<longleftrightarrow>
        clean \<notin> set confirmation_words \<and> clean \<notin> set exit_words \<and>
        \<not> (\<exists>p\<in>set name_phrases. sublist p clean) \<and>
        (\<exists>p\<in>set code_phrases. sublist p clean)) \<and>
     (detect_intent L text = CONVERSATIONAL \<longleftrightarrow>
        clean \<notin> set confirmation_words \<and> clean \<notin> set exit_words \<and>
        \<not> (\<exists>p\<in>set name_phrases. sublist p clean) \<and>
        \<not> (\<exists>p\<in>set code_phrases. sublist p clean) \<and>
        (\<exists>w\<in>set courtesy_words. sublist w clean)) \<and>
     (detect_intent L text = TECHNICAL \<longleftrightarrow>
        clean \<notin> set confirmation_words \<and> clean \<notin> set exit_words \<and>
        \<not> (\<exists>p\<in>set name_phrases. sublist p clean) \<and>
        \<not> (\<exists>p\<in>set code_phrases. sublist p clean) \<and>
        \<not> (\<exists>w\<in>set courtesy_words. sublist w clean)) \<and>
     (clean = u ''ok'' \<longrightarrow> detect_intent L text = CONFIRMATION))"
proof -
  have ok: "u ''ok'' \<in> set confirmation_words"
    by (simp add: confirmation_words_def)
  show ?thesis
    unfolding detect_intent_def Let_def list_ex_iff
    using ok by (cases "detect_intent L text") (simp_all)
qed

theorem detect_intent_priority_witness:
  "str_strip cpython_excerpt (str_lower cpython_excerpt (u '' OK '')) = u ''ok'' \<and>
   detect_intent cpython_excerpt (u '' OK '') = CONFIRMATION \<and>
   detect_intent cpython_excerpt (u '' OK '') \<noteq> TECHNICAL"
proof -
  have c: "str_strip cpython_excerpt (str_lower cpython_excerpt (u '' OK '')) = u ''ok''"
    by (simp add: cpython_excerpt_def ascii_lower_def str_strip_def excerpt_space_def)
  from detect_intent_priority [of cpython_excerpt "u '' OK ''"] c
  show ?thesis by (simp add: Let_def)
qed

text \<open>
  C10. The conversational rule looks for its words as substrings: a text whose lowered,
  trimmed form matches none of the four rules before it and contains \<open>hi\<close>, \<open>hello\<close>,
  \<open>hey\<close>, \<open>thanks\<close> or \<open>help\<close> anywhere, also inside a longer word, is CONVERSATIONAL.
\<close>

theorem conversational_substring:
  assumes "clean = str_strip L (str_lower L text)"
    and "clean \<notin> set confirmation_words" and "clean \<notin> set exit_words"
    and "\<not> (\<exists>p\<in>set name_phrases. sublist p clean)"
    and "\<not> (\<exists>p\<in>set code_phrases. sublist p clean)"
    and "sublist (u ''hi'') clean \<or> sublist (u ''hello'') clean \<or> sublist (u ''hey'') clean \<or>
         sublist (u ''thanks'') clean \<or> sublist (u ''help'') clean"
  shows "detect_intent L text = CONVERSATIONAL"
proof -
  from assms(6) have "\<exists>w\<in>set courtesy_words. sublist w clean"
    unfolding courtesy_words_def by auto
  with assms(1-5) show ?thesis
    by (simp add: detect_intent_def Let_def list_ex_iff)
qed

theorem conversational_substring_witness:
  "sublist (u ''hi'') (u ''machine'') \<and> detect_intent cpython_excerpt (u ''Machine'') = CONVERSATIONAL"
proof -
  have c: "str_strip cpython_excerpt (str_lower cpython_excerpt (u ''Machine'')) = u ''machine''"
    by (simp add: cpython_excerpt_def ascii_lower_def str_strip_def excerpt_space_def)
  have h: "sublist (u ''hi'') (u ''machine'')"
    by (simp add: sublist_code)
  have "detect_intent cpython_excerpt (u ''Machine'') = CONVERSATIONAL"
  proof (rule conversational_substring [where clean = "u ''machine''"])
    show "u ''machine'' = str_strip cpython_excerpt (str_lower cpython_excerpt (u ''Machine''))"
      using c by simp
    show "u ''machine'' \<notin> set confirmation_words"
      by (simp add: confirmation_words_def)
    show "u ''machine'' \<notin> set exit_words"
      by (simp add: exit_words_def)
    show "\<not> (\<exists>p\<in>set name_phrases. sublist p (u ''machine''))"
      by (simp add: name_phrases_def sublist_code)
    show "\<not> (\<exists>p\<in>set code_phrases. sublist p (u ''machine''))"
      by (simp add: code_phrases_def sublist_code)
    show "sublist (u ''hi'') (u ''machine'') \<or> sublist (u ''hello'') (u ''machine'') \<or>
          sublist (u ''hey'') (u ''machine'') \<or> sublist (u ''thanks'') (u ''machine'') \<or>
          sublist (u ''help'') (u ''machine'')"
      using h by simp
  qed
  with h show ?thesis by simp
qed

section \<open>Renderer: fallbacks\<close>

lemma item_None: "map_of info k = None \<Longrightarrow> item info k = Inl KeyError"
  by (simp add: item_def)

lemma render_body_malformed:
  assumes "\<not> tagged_result (Dict info)"
  shows "render_body L p (Dict info) = Inl KeyError \<or>
         render_body L p (Dict info) = Inr (u ''Hello! I am your Technical Assistant. How can I help you today?'')"
proof -
  define mode where "mode = map_of info (u ''mode'')"
  consider (exit) "mode = Some (PStr (u ''EXIT''))"
    | (name_only) "mode = Some (PStr (u ''NAME_ONLY''))"
    | (sub_table) "mode = Some (PStr (u ''SUB_TABLE''))"
    | (single) "mode = Some (PStr (u ''SINGLE''))"
    | (list) "mode = Some (PStr (u ''LIST''))"
    | (compare) "mode = Some (PStr (u ''COMPARE''))"
    | (other) "mode \<noteq> Some (PStr (u ''EXIT''))" "mode \<noteq> Some (PStr (u ''NAME_ONLY''))"
        "mode \<noteq> Some (PStr (u ''SUB_TABLE''))" "mode \<noteq> Some (PStr (u ''SINGLE''))"
        "mode \<noteq> Some (PStr (u ''LIST''))" "mode \<noteq> Some (PStr (u ''COMPARE''))"
    by blast
  then show ?thesis
  proof cases
    case exit
    with assms show ?thesis
      by (simp add: tagged_result_def mode_def)
  next
    case name_only
    with assms have "map_of info (u ''code'') = None \<or> map_of info (u ''name'') = None"
      by (simp add: tagged_result_def mode_def)
    then have "item info (u ''code'') = Inl KeyError \<or> item info (u ''name'') = Inl KeyError"
      by (auto simp: item_None)
    with name_only show ?thesis
      by (auto simp add: render_body_def mode_def split: sum.splits)
  next
    case sub_table
    with assms have "map_of info (u ''code'') = None \<or> map_of info (u ''table'') = None"
      by (simp add: tagged_result_def mode_def)
    then have "item info (u ''code'') = Inl KeyError \<or> item info (u ''table'') = Inl KeyError"
      by (auto simp: item_None)
    with sub_table show ?thesis
      by (auto simp add: render_body_def mode_def split: sum.splits)
  next
    case single
    with assms have "map_of info (u ''name'') = None \<or> map_of info (u ''code'') = None \<or>
                     map_of info (u ''table'') = None"
      by (simp add: tagged_result_def mode_def)
    then have "item info (u ''name'') = Inl KeyError \<or> item info (u ''code'') = Inl KeyError \<or>
               item info (u ''table'') = Inl KeyError"
      by (auto simp: item_None)
    with single show ?thesis
      by (auto simp add: render_body_def mode_def split: sum.splits)
  next
    case list
    with assms have "map_of info (u ''content'') = None"
      by (simp add: tagged_result_def mode_def)
    then have "item info (u ''content'') = Inl KeyError"
      by (rule item_None)
    with list show ?thesis
      by (simp add: render_body_def mode_def)
  next
    case compare
    with assms have "map_of info (u ''table'') = None"
      by (simp add: tagged_result_def mode_def)
    then have "item info (u ''table'') = Inl KeyError"
      by (rule item_None)
    with compare show ?thesis
      by (simp add: render_body_def mode_def)
  next
    case other
    then show ?thesis
      by (simp add: render_body_def mode_def)
  qed
qed

text \<open>
  C7. When the descriptor does not decode to a tagged result (the decoding fails, gives
  something that is not a dictionary, or a dictionary without a known mode or without a
  key its template needs) and the status is neither DATA_MISSING nor SHOW_PROCEDURE, the
  renderer yields one chunk, a greeting; no error reaches the caller. When the decoding
  itself fails, the greeting is the one of the \<open>except\<close> branch.
\<close>

theorem renderer_tolerates_malformed:
  assumes "\<not> tagged_result data_str" and "status \<noteq> DATA_MISSING" and "status \<noteq> SHOW_PROCEDURE"
  shows "(\<exists>g\<in>set greetings. generate_ai_response L user_prompt data_str status = [g]) \<and>
         (data_str = Undecodable \<or> data_str = NonDict \<longrightarrow>
            generate_ai_response L user_prompt data_str status = [u ''Hello! How can I help you today?''])"
proof (cases data_str)
  case Undecodable
  with assms show ?thesis
    by (simp add: generate_ai_response_def render_body_def greetings_def)
next
  case NonDict
  with assms show ?thesis
    by (simp add: generate_ai_response_def render_body_def greetings_def)
next
  case (Dict info)
  with assms(1) render_body_malformed[of info L user_prompt]
  have "render_body L user_prompt data_str = Inl KeyError \<or>
        render_body L user_prompt data_str = Inr (u ''Hello! I am your Technical Assistant. How can I help you today?'')"
    by simp
  with assms(2,3) Dict show ?thesis
    by (auto simp: generate_ai_response_def greetings_def)
qed

theorem renderer_tolerates_malformed_witness:
  "\<not> tagged_result (Dict [(u ''mode'', PStr (u ''SINGLE'')), (u ''code'', PObj (u ''621''))]) \<and>
   generate_ai_response cpython_excerpt (u ''621'')
     (Dict [(u ''mode'', PStr (u ''SINGLE'')), (u ''code'', PObj (u ''621''))]) READY
     = [u ''Hello! How can I help you today?''] \<and>
   generate_ai_response cpython_excerpt (u ''621'') Undecodable NONE
     = [u ''Hello! How can I help you today?'']"
proof -
  have a: "\<not> tagged_result (Dict [(u ''mode'', PStr (u ''SINGLE'')), (u ''code'', PObj (u ''621''))])"
    by (simp add: tagged_result_def)
  have b: "\<not> tagged_result Undecodable"
    by (simp add: tagged_result_def)
  have c: "generate_ai_response cpython_excerpt (u ''621'')
     (Dict [(u ''mode'', PStr (u ''SINGLE'')), (u ''code'', PObj (u ''621''))]) READY
     \<noteq> [u ''Hello! I am your Technical Assistant. How can I help you today?'']"
    by (simp add: generate_ai_response_def render_body_def item_def)
  from renderer_tolerates_malformed[OF a, of READY cpython_excerpt "u ''621''"]
       renderer_tolerates_malformed[OF b, of NONE cpython_excerpt "u ''621''"] a c
  show ?thesis
    by (auto simp: greetings_def)
qed

text \<open>
  C6. With the record store empty or absent, \<open>find_best_answer\<close> returns the NOT_FOUND
  descriptor with status DATA_MISSING for every utterance and history, and with that
  status the renderer yields the fixed "couldn't find" message whatever the descriptor.
\<close>

theorem empty_store_data_missing:
  assumes "df = None \<or> df = Some []"
  shows "find_best_answer L df user_prompt history
           = Inr (True, [], [(u ''mode'', u ''NOT_FOUND'')], DATA_MISSING) \<and>
         generate_ai_response L user_prompt data_str DATA_MISSING = [data_missing_text] \<and>
         sublist (u ''I couldn'' @ [39] @ u ''t find'') data_missing_text"
proof -
  have "sublist (u ''I couldn'' @ [39] @ u ''t find'') data_missing_text"
    by (simp add: data_missing_text_def sublist_code)
  with assms show ?thesis
    by (auto simp: find_best_answer_def generate_ai_response_def)
qed

theorem empty_store_data_missing_witness:
  "find_best_answer cpython_excerpt (Some []) (u ''1234'') []
     = Inr (True, [], [(u ''mode'', u ''NOT_FOUND'')], DATA_MISSING) \<and>
   generate_ai_response cpython_excerpt (u ''1234'') (decoded [(u ''mode'', u ''NOT_FOUND'')]) DATA_MISSING
     = [data_missing_text]"
  using empty_store_data_missing [of "Some []" cpython_excerpt "u ''1234''" "[]" "decoded [(u ''mode'', u ''NOT_FOUND'')]"]
  by simp

section \<open>Resolver: confirmations\<close>

lemma lower_plain:
  "python_facts L \<Longrightarrow> list_all (\<lambda>c. c < 128 \<and> \<not> (65 \<le> c \<and> c \<le> 90)) s \<Longrightarrow> str_lower L s = s"
  by (simp add: python_facts_def list_all_iff)

lemma strip_plain:
  assumes "python_facts L" "s \<noteq> []" "33 \<le> hd s \<and> hd s \<le> 126" "33 \<le> last s \<and> last s \<le> 126"
  shows "str_strip L s = s"
proof (rule str_strip_fixed)
  from assms show "\<not> is_space L (hd s)" "\<not> is_space L (last s)"
    by (simp_all add: python_facts_def)
qed (rule assms(2))

lemma confirmation_word_fixed:
  assumes "python_facts L" "w \<in> set confirmation_words"
  shows "str_strip L (str_lower L w) = w"
proof -
  from assms(2) have "list_all (\<lambda>c. c < 128 \<and> \<not> (65 \<le> c \<and> c \<le> 90)) w"
    and "w \<noteq> []" and "33 \<le> hd w \<and> hd w \<le> 126" and "33 \<le> last w \<and> last w \<le> 126"
    by (auto simp: confirmation_words_def)
  with assms(1) show ?thesis
    by (simp add: lower_plain strip_plain)
qed

lemma detect_intent_confirmation:
  "detect_intent L text = CONFIRMATION \<longleftrightarrow> str_strip L (str_lower L text) \<in> set confirmation_words"
  by (simp add: detect_intent_def Let_def)

lemma confirmation_stable:
  assumes "python_facts L" "detect_intent L text = CONFIRMATION"
  shows "detect_intent L (str_strip L (str_lower L text)) = CONFIRMATION"
  using assms by (simp add: detect_intent_confirmation confirmation_word_fixed)

lemma yes_confirmation: "python_facts L \<Longrightarrow> detect_intent L (u ''yes'') = CONFIRMATION"
proof -
  assume pf: "python_facts L"
  have "u ''yes'' \<in> set confirmation_words"
    by (simp add: confirmation_words_def)
  with pf show ?thesis
    by (simp add: detect_intent_confirmation confirmation_word_fixed)
qed

text \<open>
  C3. With a non-empty record store, an utterance whose intent is CONFIRMATION and a
  history that is empty or whose last turn contains neither the sub-code offer marker nor
  a procedure offer marker (the phrase or the emoji), \<open>find_best_answer\<close> returns the
  empty descriptor with status NONE, whatever the store holds: no record is looked up.
\<close>

theorem confirmation_without_offer:
  assumes "python_facts L" and "data \<noteq> []"
    and "detect_intent L utterance = CONFIRMATION"
    and "history = [] \<or>
         \<not> sublist (u ''know the sub code'') (content (last history)) \<and>
         \<not> sublist (u ''how to set the 08 code'') (content (last history)) \<and>
         \<not> sublist bulb (content (last history))"
  shows "find_best_answer L (Some data) utterance history = Inr (False, [], [], NONE)"
proof -
  from assms(1,3) have i: "detect_intent L (str_strip L (str_lower L utterance)) = CONFIRMATION"
    by (rule confirmation_stable)
  from assms(4) have "confirmation_branch L data history = (False, [], [], NONE)"
    by (auto simp: confirmation_branch_def Let_def)
  with assms(2) i show ?thesis
    by (simp add: find_best_answer_def Let_def)
qed

theorem confirmation_without_offer_witness:
  "python_facts cpython_excerpt \<and>
   detect_intent cpython_excerpt (u ''Yes '') = CONFIRMATION \<and>
   find_best_answer cpython_excerpt
     (Some [\<lparr>code_col = u ''1234'', name_col = u ''Fan speed'', sub_code_col = u ''-'',
             description_col = u ''No data''\<rparr>])
     (u ''Yes '') [\<lparr>role = u ''assistant'', content = u ''Hello! How can I help you today?''\<rparr>]
     = Inr (False, [], [], NONE) \<and>
   find_best_answer cpython_excerpt
     (Some [\<lparr>code_col = u ''1234'', name_col = u ''Fan speed'', sub_code_col = u ''-'',
             description_col = u ''No data''\<rparr>])
     (u ''Yes '') [] = Inr (False, [], [], NONE)"
proof -
  have i: "detect_intent cpython_excerpt (u ''Yes '') = CONFIRMATION"
    by (simp add: detect_intent_def cpython_excerpt_def ascii_lower_def str_strip_def
        excerpt_space_def confirmation_words_def)
  have h: "\<not> sublist (u ''know the sub code'') (u ''Hello! How can I help you today?'') \<and>
           \<not> sublist (u ''how to set the 08 code'') (u ''Hello! How can I help you today?'') \<and>
           \<not> sublist bulb (u ''Hello! How can I help you today?'')"
    by (simp add: sublist_code bulb_def)
  from confirmation_without_offer [OF cpython_excerpt_facts _ i,
      of "[\<lparr>code_col = u ''1234'', name_col = u ''Fan speed'', sub_code_col = u ''-'',
             description_col = u ''No data''\<rparr>]"
         "[\<lparr>role = u ''assistant'', content = u ''Hello! How can I help you today?''\<rparr>]"]
    confirmation_without_offer [OF cpython_excerpt_facts _ i,
      of "[\<lparr>code_col = u ''1234'', name_col = u ''Fan speed'', sub_code_col = u ''-'',
             description_col = u ''No data''\<rparr>]" "[]"]
    h i
  show ?thesis
    by (simp add: cpython_excerpt_facts)
qed

section \<open>Resolver: the search results\<close>

lemma length_unique_codes:
  "length (unique (map code_col rows)) = distinct_codes rows"
proof -
  have "length (unique (map code_col rows)) = card (set (map code_col rows))"
    unfolding unique_def by (simp add: length_remdups_card_conv)
  then show ?thesis
    by (simp add: distinct_codes_def length_remdups_card_conv)
qed

lemma set_unique [simp]: "set (unique xs) = set xs"
  by (simp add: unique_def)

lemma iloc0_filter_member:
  assumes "c \<in> code_col ` set rows"
  shows "\<exists>r. iloc0 (filter (\<lambda>r. code_col r = c) rows) = Inr r"
proof -
  from assms have "filter (\<lambda>r. code_col r = c) rows \<noteq> []"
    by (auto simp: filter_empty_conv)
  then show ?thesis
    by (cases "filter (\<lambda>r. code_col r = c) rows") (auto simp: iloc0_def)
qed

lemma nth_unique_codes:
  assumes "i < distinct_codes rows"
  shows "sort (unique (map code_col rows)) ! i \<in> code_col ` set rows"
proof -
  from assms have "i < length (sort (unique (map code_col rows)))"
    by (simp add: length_unique_codes)
  then have "sort (unique (map code_col rows)) ! i \<in> set (sort (unique (map code_col rows)))"
    by (rule nth_mem)
  then show ?thesis by simp
qed

lemma distinct_codes_0: "distinct_codes rows = 0 \<longleftrightarrow> rows = []"
  by (simp add: distinct_codes_def)

lemma process_rows_empty:
  "process_rows L q [] =
     Inr (True, [], [(u ''mode'', u ''NOT_FOUND''), (u ''query'', q)], DATA_MISSING)"
  by (simp add: process_rows_def)

lemma process_rows_list:
  assumes "2 < distinct_codes rows"
  shows "process_rows L q rows =
     Inr (True, [], [(u ''mode'', u ''LIST''), (u ''query'', str_upper L q),
                     (u ''content'', list_table rows)], READY)"
proof -
  from assms have "rows \<noteq> []"
    by (auto simp: distinct_codes_def)
  with assms show ?thesis
    by (simp add: process_rows_def Let_def length_unique_codes)
qed

lemma process_rows_compare:
  assumes "distinct_codes rows = 2"
  shows "\<exists>t. process_rows L q rows =
     Inr (True, [], [(u ''mode'', u ''COMPARE''), (u ''query'', str_upper L q),
                     (u ''table'', t)], READY)"
proof -
  from assms have ne: "rows \<noteq> []"
    by (auto simp: distinct_codes_def)
  from assms have "sort (unique (map code_col rows)) ! 0 \<in> code_col ` set rows"
    by (simp add: nth_unique_codes)
  then obtain r1
    where r1: "iloc0 (filter (\<lambda>r. code_col r = sort (unique (map code_col rows)) ! 0) rows) = Inr r1"
    using iloc0_filter_member by blast
  from assms have "sort (unique (map code_col rows)) ! 1 \<in> code_col ` set rows"
    by (simp add: nth_unique_codes)
  then obtain r2
    where r2: "iloc0 (filter (\<lambda>r. code_col r = sort (unique (map code_col rows)) ! 1) rows) = Inr r2"
    using iloc0_filter_member by blast
  from ne assms r1 r2 show ?thesis
    by (simp add: process_rows_def Let_def length_unique_codes)
qed

lemma process_rows_single:
  assumes "distinct_codes rows = 1"
  shows "\<exists>nm cd t. process_rows L q rows =
     Inr (True, [], [(u ''mode'', u ''SINGLE''), (u ''name'', nm), (u ''code'', cd),
                     (u ''table'', t)], READY)"
proof -
  from assms have ne: "rows \<noteq> []"
    by (auto simp: distinct_codes_def)
  then have "iloc0 (drop_duplicates sub_code_col [] rows) = Inr (hd rows)"
    by (cases rows) (simp_all add: iloc0_def)
  with assms ne show ?thesis
    by (simp add: process_rows_def Let_def length_unique_codes)
qed

lemma process_rows_tag:
  "\<exists>a. process_rows L q rows = Inr a \<and>
       mode_of a = Some (if distinct_codes rows = 0 then u ''NOT_FOUND''
                         else if distinct_codes rows = 1 then u ''SINGLE''
                         else if distinct_codes rows = 2 then u ''COMPARE'' else u ''LIST'') \<and>
       status_of a = (if distinct_codes rows = 0 then DATA_MISSING else READY)"
proof -
  consider (zero) "distinct_codes rows = 0" | (one) "distinct_codes rows = 1"
    | (two) "distinct_codes rows = 2" | (more) "2 < distinct_codes rows"
    by linarith
  then show ?thesis
  proof cases
    case zero
    then have "rows = []" by (simp add: distinct_codes_0)
    with zero show ?thesis
      by (simp add: process_rows_empty mode_of_def status_of_def)
  next
    case one
    with process_rows_single[of rows L q] show ?thesis
      by (auto simp: mode_of_def status_of_def)
  next
    case two
    with process_rows_compare[of rows L q] show ?thesis
      by (auto simp: mode_of_def status_of_def)
  next
    case more
    with process_rows_list[of rows L q] show ?thesis
      by (auto simp: mode_of_def status_of_def)
  qed
qed

lemma technical_search_process:
  assumes "2 \<le> length search_term" "search_term \<noteq> u ''ok''"
    and "search_term = str_strip L (re_sub_boilerplate user_text)"
    and "filtered_rows L data search_term = Inr rows"
    and "\<not> short_circuit L intent search_term rows"
  shows "technical_search L data intent user_text = process_rows L search_term rows"
proof (cases "re_findall_codes L None search_term")
  case Nil
  with assms(4) have nr: "name_rows L data search_term = Inr rows"
    by (simp add: filtered_rows_def)
  from Nil assms(5) have "rows = [] \<or> intent \<noteq> CODE_QUERY"
    by (auto simp: short_circuit_def)
  with assms(1-3) Nil nr show ?thesis
    by (cases rows) (auto simp: technical_search_def Let_def)
next
  case (Cons code0 more)
  with assms(4) have r: "rows = filter (\<lambda>r. code_col r = code0) data"
    by (simp add: filtered_rows_def)
  from Cons assms(5) have "rows = [] \<or> intent \<noteq> NAME_QUERY"
    by (auto simp: short_circuit_def)
  with assms(1-3) Cons r[symmetric] show ?thesis
    by (cases rows) (auto simp: technical_search_def Let_def)
qed

lemma find_best_answer_search:
  assumes "data \<noteq> []"
    and "intent = detect_intent L (str_strip L (str_lower L user_prompt))"
    and "intent = TECHNICAL \<or> intent = NAME_QUERY \<or> intent = CODE_QUERY"
  shows "find_best_answer L (Some data) user_prompt history =
         technical_search L data intent (str_strip L (str_lower L user_prompt))"
  using assms by (auto simp: find_best_answer_def Let_def)

text \<open>
  C1, as amended. For a non-empty record store and an utterance of intent TECHNICAL,
  NAME_QUERY or CODE_QUERY whose search term has at least two characters and is not
  \<open>ok\<close>, for which lines 128 to 137 filter the rows and no \<open>NAME_ONLY\<close> is returned
  early, the tag of the answer is determined by the number of distinct codes among the
  filtered rows: none gives NOT_FOUND with status DATA_MISSING, one gives SINGLE, two
  give COMPARE, three or more give LIST, each with status READY.
\<close>

theorem tag_by_distinct_codes:
  assumes "data \<noteq> []"
    and "user_text = str_strip L (str_lower L user_prompt)"
    and "intent = detect_intent L user_text"
    and "intent = TECHNICAL \<or> intent = NAME_QUERY \<or> intent = CODE_QUERY"
    and "search_term = str_strip L (re_sub_boilerplate user_text)"
    and "2 \<le> length search_term" and "search_term \<noteq> u ''ok''"
    and "filtered_rows L data search_term = Inr rows"
    and "\<not> short_circuit L intent search_term rows"
    and "n = distinct_codes rows"
  shows "\<exists>a. find_best_answer L (Some data) user_prompt history = Inr a \<and>
           mode_of a = Some (if n = 0 then u ''NOT_FOUND'' else if n = 1 then u ''SINGLE''
                             else if n = 2 then u ''COMPARE'' else u ''LIST'') \<and>
           status_of a = (if n = 0 then DATA_MISSING else READY)"
proof -
  from assms(1-4) have "find_best_answer L (Some data) user_prompt history =
      technical_search L data intent user_text"
    by (simp add: find_best_answer_search)
  also from assms(5-9) have "\<dots> = process_rows L search_term rows"
    by (simp add: technical_search_process)
  finally have "find_best_answer L (Some data) user_prompt history =
      process_rows L search_term rows" .
  with process_rows_tag[of L search_term rows] show ?thesis
    unfolding assms(10) by (elim exE conjE, intro exI conjI) simp_all
qed

theorem tag_by_distinct_codes_witness:
  "\<exists>a. find_best_answer cpython_excerpt (Some demo_store) (u ''Abc t'') [] = Inr a \<and>
        mode_of a = Some (u ''COMPARE'') \<and> status_of a = READY"
proof -
  have h1: "demo_store \<noteq> []"
    by (simp add: demo_store_def)
  have h2: "u ''abc t'' = str_strip cpython_excerpt (str_lower cpython_excerpt (u ''Abc t''))"
    by code_simp
  have h3: "TECHNICAL = detect_intent cpython_excerpt (u ''abc t'')"
    by code_simp
  have h4: "TECHNICAL = TECHNICAL \<or> TECHNICAL = NAME_QUERY \<or> TECHNICAL = CODE_QUERY"
    by simp
  have h5: "u ''abc t'' = str_strip cpython_excerpt (re_sub_boilerplate (u ''abc t''))"
    by code_simp
  have h6: "2 \<le> length (u ''abc t'')" and h7: "u ''abc t'' \<noteq> u ''ok''"
    by simp_all
  have h8: "filtered_rows cpython_excerpt demo_store (u ''abc t'') = Inr (tl demo_store)"
    by code_simp
  have h9: "\<not> short_circuit cpython_excerpt TECHNICAL (u ''abc t'') (tl demo_store)"
    by code_simp
  have h10: "2 = distinct_codes (tl demo_store)"
    by code_simp
  from tag_by_distinct_codes [OF h1 h2 h3 h4 h5 h6 h7 h8 h9 h10, of "[]"]
  show ?thesis by simp
qed

text \<open>
  C1 as stated fails for utterances of these intents that never have filtered rows. The
  guard of lines 124 and 125 answers the empty descriptor with status NONE when the
  search term is shorter than two characters (\<open>a\<close>) or is \<open>ok\<close> (\<open>code for ok\<close>); and
  the search term \<open>abc(\<close> is refused as a regular expression at line 137, so that no
  descriptor is returned at all.
\<close>

theorem tag_by_distinct_codes_counterexample:
  "detect_intent cpython_excerpt (u ''a'') = TECHNICAL \<and>
   find_best_answer cpython_excerpt (Some demo_store) (u ''a'') [] =
     Inr (False, [], [], NONE) \<and>
   detect_intent cpython_excerpt (u ''code for ok'') = CODE_QUERY \<and>
   find_best_answer cpython_excerpt (Some demo_store) (u ''code for ok'') [] =
     Inr (False, [], [], NONE) \<and>
   detect_intent cpython_excerpt (u ''abc('') = TECHNICAL \<and>
   find_best_answer cpython_excerpt (Some demo_store) (u ''abc('') [] = Inl ReError"
  by code_simp

text \<open>
  The search by name hands the search term to \<open>str.contains\<close> as a regular expression.
  A term that is not one, such as \<open>abc(\<close>, makes the call raise before any row is
  filtered, and \<open>find_best_answer\<close> returns nothing.
\<close>

lemma name_search_regex_error:
  "filtered_rows cpython_excerpt demo_store (u ''abc('') = Inl ReError \<and>
   find_best_answer cpython_excerpt (Some demo_store) (u ''abc('') [] = Inl ReError"
  by code_simp

lemma remdups_snoc: "remdups (ys @ [x]) = filter (\<lambda>y. y \<noteq> x) (remdups ys) @ [x]"
  by (induction ys) auto

lemma unique_Cons: "unique (x # xs) = x # filter (\<lambda>y. y \<noteq> x) (unique xs)"
  by (simp add: unique_def remdups_snoc rev_filter)

lemma drop_duplicates_keys:
  "map key (drop_duplicates key seen rs) = filter (\<lambda>k. k \<notin> set seen) (unique (map key rs))"
proof (induction rs arbitrary: seen)
  case Nil
  then show ?case by (simp add: unique_def)
next
  case (Cons r rs)
  show ?case
  proof (cases "key r \<in> set seen")
    case True
    then have "filter (\<lambda>k. k \<notin> set seen) (filter (\<lambda>y. y \<noteq> key r) (unique (map key rs)))
             = filter (\<lambda>k. k \<notin> set seen) (unique (map key rs))"
      by (auto intro: filter_cong)
    with True Cons.IH[of seen] show ?thesis
      by (simp add: unique_Cons)
  next
    case False
    have "filter (\<lambda>k. k \<notin> set (key r # seen)) (unique (map key rs))
        = filter (\<lambda>k. k \<notin> set seen) (filter (\<lambda>y. y \<noteq> key r) (unique (map key rs)))"
      by (auto intro: filter_cong)
    with False Cons.IH[of "key r # seen"] show ?thesis
      by (simp add: unique_Cons)
  qed
qed

lemma list_table_pairs:
  "list_table rows =
     list_header @ concat (map pair_line (unique (map (\<lambda>r. (code_col r, name_col r)) rows)))"
proof -
  have "map (\<lambda>r. u ''| '' @ code_col r @ u '' | '' @ name_col r @ u '' |'' @ nl)
            (drop_duplicates (\<lambda>r. (code_col r, name_col r)) [] rows)
      = map pair_line (map (\<lambda>r. (code_col r, name_col r))
            (drop_duplicates (\<lambda>r. (code_col r, name_col r)) [] rows))"
    by (simp add: pair_line_def)
  also have "\<dots> = map pair_line (unique (map (\<lambda>r. (code_col r, name_col r)) rows))"
    by (simp only: drop_duplicates_keys) simp
  finally show ?thesis
    by (simp add: list_table_def list_header_def Let_def)
qed

text \<open>
  C4, as amended. When the filtered rows hold more than two distinct codes, the table of
  the LIST answer is the header followed by one line for each distinct (code, name) pair,
  in the order in which the pairs first occur among the filtered rows. The rows are not
  sorted.
\<close>

theorem list_in_first_occurrence_order:
  assumes "data \<noteq> []"
    and "user_text = str_strip L (str_lower L user_prompt)"
    and "intent = detect_intent L user_text"
    and "intent = TECHNICAL \<or> intent = NAME_QUERY \<or> intent = CODE_QUERY"
    and "search_term = str_strip L (re_sub_boilerplate user_text)"
    and "2 \<le> length search_term" and "search_term \<noteq> u ''ok''"
    and "filtered_rows L data search_term = Inr rows"
    and "\<not> short_circuit L intent search_term rows"
    and "2 < distinct_codes rows"
  shows "find_best_answer L (Some data) user_prompt history =
           Inr (True, [],
                [(u ''mode'', u ''LIST''), (u ''query'', str_upper L search_term),
                 (u ''content'',
                  list_header @
                  concat (map pair_line (unique (map (\<lambda>r. (code_col r, name_col r)) rows))))],
                READY)"
proof -
  from assms(1-4) have "find_best_answer L (Some data) user_prompt history =
      technical_search L data intent user_text"
    by (simp add: find_best_answer_search)
  also from assms(5-9) have "\<dots> = process_rows L search_term rows"
    by (simp add: technical_search_process)
  also from assms(10) have "\<dots> = Inr (True, [], [(u ''mode'', u ''LIST''),
      (u ''query'', str_upper L search_term), (u ''content'', list_table rows)], READY)"
    by (rule process_rows_list)
  finally show ?thesis
    by (simp add: list_table_pairs)
qed

theorem list_in_first_occurrence_order_witness:
  "find_best_answer cpython_excerpt (Some demo_store) (u ''abc'') [] =
     Inr (True, [],
          [(u ''mode'', u ''LIST''), (u ''query'', u ''ABC''),
           (u ''content'',
            list_header @ pair_line (u ''3000'', u ''Abc one'') @
            pair_line (u ''1000'', u ''Abc two'') @ pair_line (u ''2000'', u ''abc three''))],
          READY)"
proof -
  have h1: "demo_store \<noteq> []"
    by (simp add: demo_store_def)
  have h2: "u ''abc'' = str_strip cpython_excerpt (str_lower cpython_excerpt (u ''abc''))"
    by code_simp
  have h3: "TECHNICAL = detect_intent cpython_excerpt (u ''abc'')"
    by code_simp
  have h4: "TECHNICAL = TECHNICAL \<or> TECHNICAL = NAME_QUERY \<or> TECHNICAL = CODE_QUERY"
    by simp
  have h5: "u ''abc'' = str_strip cpython_excerpt (re_sub_boilerplate (u ''abc''))"
    by code_simp
  have h6: "2 \<le> length (u ''abc'')" and h7: "u ''abc'' \<noteq> u ''ok''"
    by simp_all
  have h8: "filtered_rows cpython_excerpt demo_store (u ''abc'') = Inr demo_store"
    by code_simp
  have h9: "\<not> short_circuit cpython_excerpt TECHNICAL (u ''abc'') demo_store"
    by code_simp
  have h10: "2 < distinct_codes demo_store"
    by code_simp
  have up: "str_upper cpython_excerpt (u ''abc'') = u ''ABC''"
    by code_simp
  have un: "unique (map (\<lambda>r. (code_col r, name_col r)) demo_store) =
      [(u ''3000'', u ''Abc one''), (u ''1000'', u ''Abc two''), (u ''2000'', u ''abc three'')]"
    by code_simp
  note r = list_in_first_occurrence_order [OF h1 h2 h3 h4 h5 h6 h7 h8 h9 h10, of "[]"]
  show ?thesis
    unfolding r up un by simp
qed

text \<open>
  C4 as stated fails: a store whose rows carry the codes 3000, 1000, 2000 in this order
  is listed in this order, which is not ascending.
\<close>

theorem list_sorted_counterexample:
  "find_best_answer cpython_excerpt (Some demo_store) (u ''abc'') [] =
     Inr (True, [],
          [(u ''mode'', u ''LIST''), (u ''query'', u ''ABC''),
           (u ''content'',
            list_header @ pair_line (u ''3000'', u ''Abc one'') @
            pair_line (u ''1000'', u ''Abc two'') @ pair_line (u ''2000'', u ''abc three''))],
          READY) \<and>
   distinct_codes demo_store = 3 \<and>
   \<not> sorted [u ''3000'', u ''1000'', u ''2000'']"
  by code_simp

section \<open>Round trip of the sub-code offer\<close>

lemma code_tag_at_not_paren: "c \<noteq> 40 \<Longrightarrow> code_tag_at L (c # s) = None"
  by (simp add: code_tag_at_def)

lemma re_search_code_skip: "40 \<notin> set a \<Longrightarrow> re_search_code L (a @ s) = re_search_code L s"
  by (induction a) (simp_all add: code_tag_at_not_paren)

lemma digit_ascii: "python_facts L \<Longrightarrow> c < 128 \<Longrightarrow> re_digit L c = (48 \<le> c \<and> c \<le> 57)"
  by (simp add: python_facts_def)

lemma code_tag_at_hit:
  assumes "python_facts L" "cd \<noteq> []" "list_all (re_digit L) cd"
  shows "code_tag_at L (u ''(Code: '' @ cd @ 41 # rest) = Some cd"
proof -
  from assms(1) have n: "\<not> re_digit L 41"
    by (simp add: digit_ascii)
  from assms(3) n have "takeWhile (re_digit L) (cd @ 41 # rest) = cd"
    by (simp add: takeWhile_append2 list_all_iff)
  moreover from assms(3) n have "dropWhile (re_digit L) (cd @ 41 # rest) = 41 # rest"
    by (simp add: dropWhile_append2 list_all_iff)
  ultimately show ?thesis
    using assms(2) by (simp add: code_tag_at_def hd_opt_def)
qed

lemma code_tag_at_extend:
  assumes "code_tag_at L a = None" "\<not> re_digit L b" "b \<noteq> 41" "b \<notin> set (u ''(Code: '')"
  shows "code_tag_at L (a @ b # s) = None"
proof (cases "prefix (u ''(Code: '') (a @ b # s)")
  case False
  then show ?thesis by (simp add: code_tag_at_def)
next
  case True
  have pa: "prefix (u ''(Code: '') a"
  proof (rule ccontr)
    assume np: "\<not> prefix (u ''(Code: '') a"
    from True have "prefix (u ''(Code: '') a \<or> (\<exists>us. u ''(Code: '' = a @ us \<and> prefix us (b # s))"
      by (simp only: prefix_append)
    with np obtain us where us: "u ''(Code: '' = a @ us" "prefix us (b # s)"
      by blast
    from us(1) np have "us \<noteq> []"
      by auto
    with us(2) have "hd us = b"
      by (cases us) auto
    with \<open>us \<noteq> []\<close> have "b \<in> set us"
      by (cases us) auto
    with us(1) have "b \<in> set (u ''(Code: '')"
      by (metis Un_iff set_append)
    with assms(4) show False by contradiction
  qed
  then obtain a' where a: "a = u ''(Code: '' @ a'"
    by (auto simp: prefix_def)
  let ?ds = "takeWhile (re_digit L) a'" and ?r = "dropWhile (re_digit L) a'"
  from assms(1) pa a have none: "\<not> (?ds \<noteq> [] \<and> hd_opt ?r = Some 41)"
    by (simp add: code_tag_at_def Let_def split: if_splits)
  show ?thesis
  proof (cases "\<forall>c\<in>set a'. re_digit L c")
    case True
    with assms(2) have "takeWhile (re_digit L) (a' @ b # s) = a'"
      and "dropWhile (re_digit L) (a' @ b # s) = b # s"
      by (simp_all add: takeWhile_append2 dropWhile_append2)
    with assms(3) a show ?thesis
      by (simp add: code_tag_at_def hd_opt_def)
  next
    case False
    then obtain x where x: "x \<in> set a'" "\<not> re_digit L x"
      by blast
    then have t: "takeWhile (re_digit L) (a' @ b # s) = ?ds"
      and d: "dropWhile (re_digit L) (a' @ b # s) = ?r @ b # s"
      by (simp_all add: takeWhile_append1 dropWhile_append1)
    from x have "?r \<noteq> []"
      by (auto simp: dropWhile_eq_Nil_conv)
    then have "hd_opt (?r @ b # s) = hd_opt ?r"
      by (cases ?r) (simp_all add: hd_opt_def)
    with none t d a show ?thesis
      by (simp add: code_tag_at_def Let_def)
  qed
qed

lemma re_search_code_extend:
  assumes "re_search_code L a = None" "\<not> re_digit L b" "b \<noteq> 41" "b \<notin> set (u ''(Code: '')"
  shows "re_search_code L (a @ b # s) = re_search_code L (b # s)"
  using assms(1)
proof (induction a)
  case Nil
  then show ?case by simp
next
  case (Cons c cs)
  from Cons.prems have n: "code_tag_at L (c # cs) = None" and r: "re_search_code L cs = None"
    by (simp_all split: option.splits)
  from n assms(2-4) have "code_tag_at L ((c # cs) @ b # s) = None"
    by (rule code_tag_at_extend)
  with Cons.IH[OF r] show ?case by simp
qed

lemma offer_split: "sub_code_offer cd = offer_lead @ u ''(Code: '' @ cd @ [41]"
  by (simp add: sub_code_offer_def offer_lead_def)

lemma offer_lead_no_paren: "40 \<notin> set offer_lead"
  by (simp add: offer_lead_def nl_def bulb_def)

lemma digits_no_paren:
  assumes "python_facts L" "list_all (re_digit L) cd"
  shows "40 \<notin> set cd"
proof
  assume "40 \<in> set cd"
  with assms(2) have "re_digit L 40" by (simp add: list_all_iff)
  with assms(1) show False by (simp add: digit_ascii)
qed

lemma re_search_code_offer:
  assumes "python_facts L" "cd \<noteq> []" "list_all (re_digit L) cd" "40 \<notin> set pre"
  shows "re_search_code L (pre @ sub_code_offer cd) = Some cd"
proof -
  have "re_search_code L (pre @ sub_code_offer cd)
      = re_search_code L ((pre @ offer_lead) @ u ''(Code: '' @ cd @ [41])"
    by (simp add: offer_split)
  also from assms(4) offer_lead_no_paren have "\<dots> = re_search_code L (u ''(Code: '' @ cd @ [41])"
    by (intro re_search_code_skip) simp
  also from code_tag_at_hit[OF assms(1-3), of "[]"] have "\<dots> = Some cd"
    by simp
  finally show ?thesis .
qed

lemma re_search_code_name_only:
  assumes pf: "python_facts L" and ne: "cd \<noteq> []" and dg: "list_all (re_digit L) cd"
    and nm: "re_search_code L nm = None"
  shows "re_search_code L (render_name_only i cd nm) = Some cd"
proof -
  from pf have star: "\<not> re_digit L 42" by (simp add: digit_ascii)
  have star2: "42 \<noteq> (41::nat)" "42 \<notin> set (u ''(Code: '')" by simp_all
  from pf dg have np: "40 \<notin> set cd" by (rule digits_no_paren)
  show ?thesis
  proof (cases "i = NAME_QUERY")
    case True
    have "re_search_code L (render_name_only i cd nm)
        = re_search_code L ((u ''The setting name for **'' @ cd @ u ''** is **'') @
             nm @ 42 # (u ''*.'' @ sub_code_offer cd))"
      using True by (simp add: render_name_only_def)
    also from np have "\<dots> = re_search_code L (nm @ 42 # (u ''*.'' @ sub_code_offer cd))"
      by (intro re_search_code_skip) simp
    also from nm star star2 have "\<dots> = re_search_code L (42 # (u ''*.'' @ sub_code_offer cd))"
      by (rule re_search_code_extend)
    also have "\<dots> = re_search_code L (u ''**.'' @ sub_code_offer cd)"
      by simp
    also from pf ne dg have "\<dots> = Some cd"
      by (intro re_search_code_offer) simp_all
    finally show ?thesis .
  next
    case False
    have "re_search_code L (render_name_only i cd nm)
        = re_search_code L (u ''The Access Code for **'' @
             nm @ 42 # (u ''* is **'' @ cd @ u ''**.'' @ sub_code_offer cd))"
      using False by (simp add: render_name_only_def)
    also have "\<dots> = re_search_code L (nm @ 42 # (u ''* is **'' @ cd @ u ''**.'' @ sub_code_offer cd))"
      by (intro re_search_code_skip) simp
    also from nm star star2
    have "\<dots> = re_search_code L (42 # (u ''* is **'' @ cd @ u ''**.'' @ sub_code_offer cd))"
      by (rule re_search_code_extend)
    also have "\<dots> = re_search_code L ((u ''** is **'' @ cd @ u ''**.'') @ sub_code_offer cd)"
      by simp
    also from pf ne dg np have "\<dots> = Some cd"
      by (intro re_search_code_offer) simp_all
    finally show ?thesis .
  qed
qed

lemma sublist_trans_append: "sublist m b \<Longrightarrow> sublist m (a @ b @ c)"
  by (metis sublist_appendI sublist_order.order_trans)

lemma offer_has_marker: "sublist (u ''know the sub code'') (pre @ sub_code_offer cd)"
proof -
  have "sublist (u ''know the sub code'') offer_lead"
    by (simp add: offer_lead_def nl_def bulb_def sublist_code)
  then have "sublist (u ''know the sub code'') (pre @ offer_lead @ (u ''(Code: '' @ cd @ [41]))"
    by (rule sublist_trans_append)
  then show ?thesis by (simp add: offer_split)
qed

lemma offer_has_tag: "sublist (u ''(Code: '' @ cd @ u '')'') (pre @ sub_code_offer cd)"
proof -
  have "pre @ sub_code_offer cd = (pre @ offer_lead) @ (u ''(Code: '' @ cd @ u '')'') @ []"
    by (simp add: offer_split)
  then show ?thesis
    by (simp only: sublist_appendI)
qed

lemma name_only_has_marker: "sublist (u ''know the sub code'') (render_name_only i cd nm)"
  using offer_has_marker[of "u ''The setting name for **'' @ cd @ u ''** is **'' @ nm @ u ''**.''" cd]
        offer_has_marker[of "u ''The Access Code for **'' @ nm @ u ''** is **'' @ cd @ u ''**.''" cd]
  by (simp add: render_name_only_def)

lemma name_only_has_tag: "sublist (u ''(Code: '' @ cd @ u '')'') (render_name_only i cd nm)"
  using offer_has_tag[of cd "u ''The setting name for **'' @ cd @ u ''** is **'' @ nm @ u ''**.''"]
        offer_has_tag[of cd "u ''The Access Code for **'' @ nm @ u ''** is **'' @ cd @ u ''**.''"]
  by (simp add: render_name_only_def)

lemma render_name_only_chunk:
  "generate_ai_response L user_prompt
     (decoded [(u ''mode'', u ''NAME_ONLY''), (u ''name'', nm), (u ''code'', cd)]) READY
   = [render_name_only (detect_intent L user_prompt) cd nm]"
  by (simp add: generate_ai_response_def render_body_def decoded_def item_def fmt_def)

lemma yes_intent:
  assumes "python_facts L"
  shows "detect_intent L (str_strip L (str_lower L (u ''yes''))) = CONFIRMATION"
  using assms by (intro confirmation_stable yes_confirmation)

lemma find_best_answer_yes:
  assumes "python_facts L" "data \<noteq> []"
  shows "find_best_answer L (Some data) (u ''yes'') history = Inr (confirmation_branch L data history)"
  using assms(2) yes_intent[OF assms(1)]
  by (simp add: find_best_answer_def Let_def)

lemma confirmation_branch_sub_table:
  assumes "sublist (u ''know the sub code'') msg" "re_search_code L msg = Some cd"
  shows "confirmation_branch L data (history @ [\<lparr>role = r, content = msg\<rparr>]) =
     (True, [],
      [(u ''mode'', u ''SUB_TABLE''),
       (u ''table'', str_join nl (sub_table_lines L (filter (\<lambda>r. code_col r = cd) data))),
       (u ''code'', cd)], READY)"
  using assms by (simp add: confirmation_branch_def Let_def)

text \<open>
  C2, as amended. For a non-empty record store, a code that is a non-empty string of
  digits and a name in which \<open>(Code: <digits>)\<close> does not occur: the renderer's chunk
  for the \<open>NAME_ONLY\<close> descriptor contains \<open>(Code: <code>)\<close>, and with that chunk as the
  last turn of the history the utterance \<open>yes\<close> resolves to the \<open>SUB_TABLE\<close> descriptor
  of that code, its table built from the rows of the store with that code, with status
  READY.
\<close>

theorem name_only_round_trip:
  assumes "python_facts L" and "data \<noteq> []"
    and "cd \<noteq> []" and "list_all (re_digit L) cd"
    and "re_search_code L nm = None"
  shows "\<exists>msg.
     generate_ai_response L user_prompt
       (decoded [(u ''mode'', u ''NAME_ONLY''), (u ''name'', nm), (u ''code'', cd)]) READY = [msg] \<and>
     sublist (u ''(Code: '' @ cd @ u '')'') msg \<and>
     find_best_answer L (Some data) (u ''yes'')
       (history @ [\<lparr>role = u ''assistant'', content = msg\<rparr>]) =
       Inr (True, [],
            [(u ''mode'', u ''SUB_TABLE''),
             (u ''table'',
              str_join nl (sub_table_lines L (filter (\<lambda>r. code_col r = cd) data))),
             (u ''code'', cd)], READY)"
proof -
  let ?msg = "render_name_only (detect_intent L user_prompt) cd nm"
  have m: "sublist (u ''know the sub code'') ?msg"
    by (rule name_only_has_marker)
  from assms(1,3,4,5) have s: "re_search_code L ?msg = Some cd"
    by (rule re_search_code_name_only)
  have "find_best_answer L (Some data) (u ''yes'')
          (history @ [\<lparr>role = u ''assistant'', content = ?msg\<rparr>]) =
        Inr (confirmation_branch L data (history @ [\<lparr>role = u ''assistant'', content = ?msg\<rparr>]))"
    using assms(1,2) by (rule find_best_answer_yes)
  also note confirmation_branch_sub_table[OF m s]
  finally show ?thesis
    using render_name_only_chunk name_only_has_tag by blast
qed

theorem name_only_round_trip_witness:
  "generate_ai_response cpython_excerpt (u ''code for network protocol'')
     (decoded [(u ''mode'', u ''NAME_ONLY''), (u ''name'', u ''Network Protocol''),
               (u ''code'', u ''621'')]) READY
     = [render_name_only CODE_QUERY (u ''621'') (u ''Network Protocol'')] \<and>
   find_best_answer cpython_excerpt (Some protocol_store) (u ''yes'')
     [\<lparr>role = u ''assistant'',
       content = render_name_only CODE_QUERY (u ''621'') (u ''Network Protocol'')\<rparr>]
     = Inr (True, [],
            [(u ''mode'', u ''SUB_TABLE''),
             (u ''table'',
              str_join nl (sub_table_lines cpython_excerpt
                (filter (\<lambda>r. code_col r = u ''621'') protocol_store))),
             (u ''code'', u ''621'')], READY)"
proof -
  have h2: "protocol_store \<noteq> []"
    by (simp add: protocol_store_def)
  have h3: "u ''621'' \<noteq> []"
    by simp
  have h4: "list_all (re_digit cpython_excerpt) (u ''621'')"
    by code_simp
  have h5: "re_search_code cpython_excerpt (u ''Network Protocol'') = None"
    by code_simp
  have i: "detect_intent cpython_excerpt (u ''code for network protocol'') = CODE_QUERY"
    by code_simp
  from name_only_round_trip [OF cpython_excerpt_facts h2 h3 h4 h5,
      of "u ''code for network protocol''" "[]"]
  show ?thesis
    unfolding render_name_only_chunk i by simp
qed

text \<open>
  C2 as stated fails twice: with an empty record store the answer to \<open>yes\<close> is
  DATA_MISSING, and a name that itself contains \<open>(Code: 999)\<close> comes first in the
  rendered text, so that the sub-code table is the one of 999 and not of the code 621 of
  the descriptor.
\<close>

theorem name_only_round_trip_counterexample:
  "find_best_answer cpython_excerpt (Some []) (u ''yes'')
     [\<lparr>role = u ''assistant'',
       content = render_name_only CODE_QUERY (u ''621'') (u ''Network Protocol'')\<rparr>]
     = Inr (True, [], [(u ''mode'', u ''NOT_FOUND'')], DATA_MISSING) \<and>
   generate_ai_response cpython_excerpt (u ''code for tray'')
     (decoded [(u ''mode'', u ''NAME_ONLY''), (u ''name'', u ''Tray (Code: 999)''),
               (u ''code'', u ''621'')]) READY
     = [render_name_only CODE_QUERY (u ''621'') (u ''Tray (Code: 999)'')] \<and>
   find_best_answer cpython_excerpt (Some protocol_store) (u ''yes'')
     [\<lparr>role = u ''assistant'',
       content = render_name_only CODE_QUERY (u ''621'') (u ''Tray (Code: 999)'')\<rparr>]
     = Inr (True, [],
            [(u ''mode'', u ''SUB_TABLE''),
             (u ''table'',
              u ''| Sub-Code | Description / Values |'' @ nl @ u ''| :--- | :--- |'' @ nl @
              u ''| 3 | No data |''),
             (u ''code'', u ''999'')], READY)"
  by code_simp

section \<open>The procedure offer after a table\<close>

lemma sublist_skip:
  assumes "pat \<noteq> []" "hd pat \<notin> set a"
  shows "sublist pat (a @ s) \<longleftrightarrow> sublist pat s"
  using assms(2)
proof (induction a)
  case Nil
  then show ?case by simp
next
  case (Cons c cs)
  from Cons.prems assms(1) have "\<not> prefix pat (c # cs @ s)"
    by (cases pat) auto
  with Cons show ?case
    by (simp add: sublist_Cons_right)
qed

lemma sublist_sep:
  assumes "c \<notin> set pat"
  shows "sublist pat (a @ c # b) \<longleftrightarrow> sublist pat a \<or> sublist pat b"
proof
  assume "sublist pat (a @ c # b)"
  then consider "sublist pat a" | "sublist pat (c # b)"
    | xs1 xs2 where "pat = xs1 @ xs2" "suffix xs1 a" "prefix xs2 (c # b)"
    by (auto simp: sublist_append)
  then show "sublist pat a \<or> sublist pat b"
  proof cases
    case 1
    then show ?thesis by simp
  next
    case 2
    have "\<not> prefix pat (c # b) \<or> pat = []"
      using assms by (cases pat) auto
    with 2 show ?thesis
      by (auto simp: sublist_Cons_right)
  next
    case 3
    show ?thesis
    proof (cases xs2)
      case Nil
      with 3 have "suffix pat a" by simp
      then have "sublist pat a" by (rule suffix_imp_sublist)
      then show ?thesis by simp
    next
      case (Cons x xs)
      with 3(3) have "x = c" by simp
      with Cons 3(1) assms show ?thesis by simp
    qed
  qed
next
  assume "sublist pat a \<or> sublist pat b"
  then show "sublist pat (a @ c # b)"
  proof
    assume "sublist pat a"
    then show ?thesis
      by (auto simp: sublist_append)
  next
    assume "sublist pat b"
    then have "sublist pat (c # b)"
      by (simp add: sublist_Cons_right)
    then show ?thesis
      by (auto simp: sublist_append)
  qed
qed

lemma marker_free_single:
  assumes "\<not> sublist (u ''know the sub code'') nm" "\<not> sublist (u ''know the sub code'') cd"
    "\<not> sublist (u ''know the sub code'') table"
  shows "\<not> sublist (u ''know the sub code'') (render_single nm cd table)"
proof -
  let ?m = "u ''know the sub code''"
  let ?tail = "nl @ bulb @ u '' **Suggestion:** Type **Yes** to see the 08 procedure.''"
  let ?z = "nl @ nl @ (table @ 10 # ?tail)"
  let ?y = "u ''* (Code: '' @ (cd @ 41 # ?z)"
  have t: "\<not> sublist ?m ?tail"
    by (simp add: nl_def bulb_def sublist_code)
  have r: "render_single nm cd table = u ''Technical Record for **'' @ (nm @ 42 # ?y)"
    by (simp add: render_single_def nl_def)
  have 1: "sublist ?m (u ''Technical Record for **'' @ (nm @ 42 # ?y)) = sublist ?m (nm @ 42 # ?y)"
    by (rule sublist_skip) simp_all
  have 2: "sublist ?m (nm @ 42 # ?y) = (sublist ?m nm \<or> sublist ?m ?y)"
    by (rule sublist_sep) simp
  have 3: "sublist ?m ?y = sublist ?m (cd @ 41 # ?z)"
    by (rule sublist_skip) simp_all
  have 4: "sublist ?m (cd @ 41 # ?z) = (sublist ?m cd \<or> sublist ?m ?z)"
    by (rule sublist_sep) simp
  have 5: "sublist ?m ((nl @ nl) @ (table @ 10 # ?tail)) = sublist ?m (table @ 10 # ?tail)"
    by (rule sublist_skip) (simp_all add: nl_def)
  have 6: "sublist ?m (table @ 10 # ?tail) = (sublist ?m table \<or> sublist ?m ?tail)"
    by (rule sublist_sep) simp
  from 5 6 have 7: "sublist ?m ?z = (sublist ?m table \<or> sublist ?m ?tail)"
    by simp
  from assms t show ?thesis
    unfolding r 1 2 3 4 7 by simp
qed


lemma marker_free_list:
  assumes "\<not> sublist (u ''know the sub code'') query" "\<not> sublist (u ''know the sub code'') tbl"
  shows "\<not> sublist (u ''know the sub code'') (render_list query tbl)"
proof -
  let ?m = "u ''know the sub code''"
  let ?tail = "nl @ bulb @ u '' Please type the specific **Access Code** you need.''"
  let ?y = "u ''*:'' @ nl @ nl @ (tbl @ 10 # ?tail)"
  have t: "\<not> sublist ?m ?tail"
    by (simp add: nl_def bulb_def sublist_code)
  have r: "render_list query tbl = u ''I found several entries for *'' @ 42 # (query @ 42 # ?y)"
    by (simp add: render_list_def nl_def)
  have 1: "sublist ?m (u ''I found several entries for *'' @ 42 # (query @ 42 # ?y))
         = (sublist ?m (u ''I found several entries for *'') \<or> sublist ?m (query @ 42 # ?y))"
    by (rule sublist_sep) simp
  have 2: "sublist ?m (query @ 42 # ?y) = (sublist ?m query \<or> sublist ?m ?y)"
    by (rule sublist_sep) simp
  have 3: "sublist ?m ((u ''*:'' @ nl @ nl) @ (tbl @ 10 # ?tail)) = sublist ?m (tbl @ 10 # ?tail)"
    by (rule sublist_skip) (simp_all add: nl_def)
  have 4: "sublist ?m (tbl @ 10 # ?tail) = (sublist ?m tbl \<or> sublist ?m ?tail)"
    by (rule sublist_sep) simp
  from 3 4 have 5: "sublist ?m ?y = (sublist ?m tbl \<or> sublist ?m ?tail)"
    by simp
  have 6: "\<not> sublist ?m (u ''I found several entries for *'')"
    by (simp add: sublist_code)
  from assms t 6 show ?thesis
    unfolding r 1 2 5 by simp
qed

lemma marker_free_compare:
  assumes "\<not> sublist (u ''know the sub code'') query" "\<not> sublist (u ''know the sub code'') table"
  shows "\<not> sublist (u ''know the sub code'') (render_compare query table)"
proof -
  let ?m = "u ''know the sub code''"
  let ?tail = "nl @ bulb @ u '' **Tip:** Use these to check state differences.''"
  let ?head = "u ''### '' @ [240, 376, 8220, 352] @ u '' Side-by-Side Comparison: ''"
  let ?y = "nl @ (table @ 10 # ?tail)"
  have t: "\<not> sublist ?m ?tail"
    by (simp add: nl_def bulb_def sublist_code)
  have r: "render_compare query table = ?head @ (query @ 10 # ?y)"
    by (simp add: render_compare_def nl_def)
  have 1: "sublist ?m (?head @ (query @ 10 # ?y)) = sublist ?m (query @ 10 # ?y)"
    by (rule sublist_skip) simp_all
  have 2: "sublist ?m (query @ 10 # ?y) = (sublist ?m query \<or> sublist ?m ?y)"
    by (rule sublist_sep) simp
  have 3: "sublist ?m (nl @ (table @ 10 # ?tail)) = sublist ?m (table @ 10 # ?tail)"
    by (rule sublist_skip) (simp_all add: nl_def)
  have 4: "sublist ?m (table @ 10 # ?tail) = (sublist ?m table \<or> sublist ?m ?tail)"
    by (rule sublist_sep) simp
  from 3 4 have 5: "sublist ?m ?y = (sublist ?m table \<or> sublist ?m ?tail)"
    by simp
  from assms t show ?thesis
    unfolding r 1 2 5 by simp
qed

lemma bulb_in_single: "sublist bulb (render_single nm cd table)"
proof -
  have "render_single nm cd table =
        (u ''Technical Record for **'' @ nm @ u ''** (Code: '' @ cd @ u '')'' @ nl @ nl @ table @ nl @ nl)
        @ bulb @ u '' **Suggestion:** Type **Yes** to see the 08 procedure.''"
    by (simp add: render_single_def)
  then show ?thesis
    by (simp only: sublist_appendI)
qed

lemma bulb_in_list: "sublist bulb (render_list query tbl)"
proof -
  have "render_list query tbl =
        (u ''I found several entries for **'' @ query @ u ''**:'' @ nl @ nl @ tbl @ nl @ nl)
        @ bulb @ u '' Please type the specific **Access Code** you need.''"
    by (simp add: render_list_def)
  then show ?thesis
    by (simp only: sublist_appendI)
qed

lemma bulb_in_compare: "sublist bulb (render_compare query table)"
proof -
  have "render_compare query table =
        (u ''### '' @ [240, 376, 8220, 352] @ u '' Side-by-Side Comparison: '' @ query @ nl @ nl @
         table @ nl @ nl)
        @ bulb @ u '' **Tip:** Use these to check state differences.''"
    by (simp add: render_compare_def)
  then show ?thesis
    by (simp only: sublist_appendI)
qed

lemma confirmation_branch_procedure:
  assumes "\<not> sublist (u ''know the sub code'') msg" "sublist bulb msg"
  shows "confirmation_branch L data (history @ [\<lparr>role = r, content = msg\<rparr>]) =
         (True, [], [], SHOW_PROCEDURE)"
  using assms by (simp add: confirmation_branch_def Let_def)

lemma find_best_answer_confirmation:
  assumes "python_facts L" "data \<noteq> []" "detect_intent L utterance = CONFIRMATION"
  shows "find_best_answer L (Some data) utterance history =
         Inr (confirmation_branch L data history)"
  using assms(2) confirmation_stable[OF assms(1,3)]
  by (simp add: find_best_answer_def Let_def)

text \<open>
  C9, as amended. The chunks rendered for \<open>SINGLE\<close>, \<open>LIST\<close> and \<open>COMPARE\<close> contain the
  emoji that the confirmation branch takes as the procedure offer. When no value of the
  descriptor contains the sub-code offer marker \<open>know the sub code\<close>, the chunk does not
  contain it either, and for every non-empty record store a confirmation whose last turn
  is that chunk returns the empty descriptor with status SHOW_PROCEDURE.
\<close>

theorem table_answers_offer_procedure:
  assumes "python_facts L" and "data \<noteq> []"
    and "d = [(u ''mode'', u ''SINGLE''), (u ''name'', nm), (u ''code'', cd), (u ''table'', table)] \<or>
         d = [(u ''mode'', u ''LIST''), (u ''query'', query), (u ''content'', table)] \<or>
         d = [(u ''mode'', u ''COMPARE''), (u ''query'', query), (u ''table'', table)]"
    and "offer_free d"
    and "detect_intent L utterance = CONFIRMATION"
  shows "\<exists>msg. generate_ai_response L user_prompt (decoded d) READY = [msg] \<and>
           sublist bulb msg \<and> \<not> sublist (u ''know the sub code'') msg \<and>
           find_best_answer L (Some data) utterance
             (history @ [\<lparr>role = u ''assistant'', content = msg\<rparr>]) =
             Inr (True, [], [], SHOW_PROCEDURE)"
proof -
  have y: "find_best_answer L (Some data) utterance h = Inr (confirmation_branch L data h)" for h
    using assms(1,2,5) by (rule find_best_answer_confirmation)
  from assms(3) consider
      (single) "d = [(u ''mode'', u ''SINGLE''), (u ''name'', nm), (u ''code'', cd), (u ''table'', table)]"
    | (list) "d = [(u ''mode'', u ''LIST''), (u ''query'', query), (u ''content'', table)]"
    | (compare) "d = [(u ''mode'', u ''COMPARE''), (u ''query'', query), (u ''table'', table)]"
    by blast
  then show ?thesis
  proof cases
    case single
    then have g: "generate_ai_response L user_prompt (decoded d) READY = [render_single nm cd table]"
      by (simp add: generate_ai_response_def render_body_def decoded_def item_def fmt_def)
    from single assms(4) have f: "\<not> sublist (u ''know the sub code'') (render_single nm cd table)"
      by (intro marker_free_single) (simp_all add: offer_free_def)
    have "find_best_answer L (Some data) utterance
            (history @ [\<lparr>role = u ''assistant'', content = render_single nm cd table\<rparr>]) =
          Inr (confirmation_branch L data
            (history @ [\<lparr>role = u ''assistant'', content = render_single nm cd table\<rparr>]))"
      by (rule y)
    also have "\<dots> = Inr (True, [], [], SHOW_PROCEDURE)"
      by (simp only: confirmation_branch_procedure[OF f bulb_in_single])
    finally show ?thesis
      using g f bulb_in_single by blast
  next
    case list
    then have g: "generate_ai_response L user_prompt (decoded d) READY = [render_list query table]"
      by (simp add: generate_ai_response_def render_body_def decoded_def item_def fmt_def get_text_def)
    from list assms(4) have f: "\<not> sublist (u ''know the sub code'') (render_list query table)"
      by (intro marker_free_list) (simp_all add: offer_free_def)
    have "find_best_answer L (Some data) utterance
            (history @ [\<lparr>role = u ''assistant'', content = render_list query table\<rparr>]) =
          Inr (confirmation_branch L data
            (history @ [\<lparr>role = u ''assistant'', content = render_list query table\<rparr>]))"
      by (rule y)
    also have "\<dots> = Inr (True, [], [], SHOW_PROCEDURE)"
      by (simp only: confirmation_branch_procedure[OF f bulb_in_list])
    finally show ?thesis
      using g f bulb_in_list by blast
  next
    case compare
    then have g: "generate_ai_response L user_prompt (decoded d) READY = [render_compare query table]"
      by (simp add: generate_ai_response_def render_body_def decoded_def item_def fmt_def get_text_def)
    from compare assms(4) have f: "\<not> sublist (u ''know the sub code'') (render_compare query table)"
      by (intro marker_free_compare) (simp_all add: offer_free_def)
    have "find_best_answer L (Some data) utterance
            (history @ [\<lparr>role = u ''assistant'', content = render_compare query table\<rparr>]) =
          Inr (confirmation_branch L data
            (history @ [\<lparr>role = u ''assistant'', content = render_compare query table\<rparr>]))"
      by (rule y)
    also have "\<dots> = Inr (True, [], [], SHOW_PROCEDURE)"
      by (simp only: confirmation_branch_procedure[OF f bulb_in_compare])
    finally show ?thesis
      using g f bulb_in_compare by blast
  qed
qed

theorem table_answers_offer_procedure_witness:
  "offer_free [(u ''mode'', u ''LIST''), (u ''query'', u ''ABC''),
               (u ''content'', list_table demo_store)] \<and>
   detect_intent cpython_excerpt (u ''Yes'') = CONFIRMATION \<and>
   generate_ai_response cpython_excerpt (u ''abc'')
     (decoded [(u ''mode'', u ''LIST''), (u ''query'', u ''ABC''),
               (u ''content'', list_table demo_store)]) READY
     = [render_list (u ''ABC'') (list_table demo_store)] \<and>
   find_best_answer cpython_excerpt (Some demo_store) (u ''Yes'')
     [\<lparr>role = u ''user'', content = u ''abc''\<rparr>,
      \<lparr>role = u ''assistant'', content = render_list (u ''ABC'') (list_table demo_store)\<rparr>]
     = Inr (True, [], [], SHOW_PROCEDURE)"
proof -
  let ?d = "[(u ''mode'', u ''LIST''), (u ''query'', u ''ABC''),
             (u ''content'', list_table demo_store)]"
  have h2: "demo_store \<noteq> []"
    by (simp add: demo_store_def)
  have h3: "?d = [(u ''mode'', u ''SINGLE''), (u ''name'', []), (u ''code'', []),
                  (u ''table'', list_table demo_store)] \<or>
            ?d = [(u ''mode'', u ''LIST''), (u ''query'', u ''ABC''),
                  (u ''content'', list_table demo_store)] \<or>
            ?d = [(u ''mode'', u ''COMPARE''), (u ''query'', u ''ABC''),
                  (u ''table'', list_table demo_store)]"
    by simp
  have h4: "offer_free ?d"
    by code_simp
  have h5: "detect_intent cpython_excerpt (u ''Yes'') = CONFIRMATION"
    by code_simp
  have g: "generate_ai_response cpython_excerpt (u ''abc'') (decoded ?d) READY
           = [render_list (u ''ABC'') (list_table demo_store)]"
    by (simp add: generate_ai_response_def render_body_def decoded_def item_def fmt_def
        get_text_def)
  from table_answers_offer_procedure [OF cpython_excerpt_facts h2 h3 h4 h5,
      of "u ''abc''" "[\<lparr>role = u ''user'', content = u ''abc''\<rparr>]"]
  have "find_best_answer cpython_excerpt (Some demo_store) (u ''Yes'')
     ([\<lparr>role = u ''user'', content = u ''abc''\<rparr>] @
      [\<lparr>role = u ''assistant'', content = render_list (u ''ABC'') (list_table demo_store)\<rparr>])
     = Inr (True, [], [], SHOW_PROCEDURE)"
    unfolding g by blast
  with h4 h5 g show ?thesis
    by simp
qed

text \<open>
  C9 as stated fails when a value of the descriptor brings the marker with it: for a
  setting named \<open>Need to know the sub code\<close> the \<open>SINGLE\<close> chunk contains the marker and
  the tag \<open>(Code: 1234)\<close> of its own first line, and \<open>yes\<close> resolves to the \<open>SUB_TABLE\<close>
  of 1234 with status READY.
\<close>

theorem table_answers_offer_procedure_counterexample:
  "find_best_answer cpython_excerpt (Some offer_store) (u ''1234'') [] =
     Inr (True, [],
          [(u ''mode'', u ''SINGLE''), (u ''name'', u ''Need to know the sub code''),
           (u ''code'', u ''1234''),
           (u ''table'',
            u ''| Sub-Code | Description / Values |'' @ nl @ u ''| :--- | :--- |'' @ nl @
            u ''| 7 | 0: Off <br> 1: On |'')], READY) \<and>
   sublist (u ''know the sub code'')
     (render_single (u ''Need to know the sub code'') (u ''1234'')
        (u ''| Sub-Code | Description / Values |'' @ nl @ u ''| :--- | :--- |'' @ nl @
         u ''| 7 | 0: Off <br> 1: On |'')) \<and>
   find_best_answer cpython_excerpt (Some offer_store) (u ''yes'')
     [\<lparr>role = u ''user'', content = u ''1234''\<rparr>,
      \<lparr>role = u ''assistant'', content =
         render_single (u ''Need to know the sub code'') (u ''1234'')
           (u ''| Sub-Code | Description / Values |'' @ nl @ u ''| :--- | :--- |'' @ nl @
            u ''| 7 | 0: Off <br> 1: On |'')\<rparr>] =
     Inr (True, [],
          [(u ''mode'', u ''SUB_TABLE''),
           (u ''table'',
            u ''| Sub-Code | Description / Values |'' @ nl @ u ''| :--- | :--- |'' @ nl @
            u ''| 7 | 0: Off <br> 1: On |''),
           (u ''code'', u ''1234'')], READY)"
  by code_simp

end
